theory Spec2Isabelle
  imports Main "HOL-Library.AList"
begin

section \<open>Data model\<close>

text \<open>
  The program (\<^verbatim>\<open>compare_app.py\<close>) compares a table read from a spreadsheet with a
  table extracted from a PDF. Both are pandas frames.

  A column label is whatever pandas holds as a column name: a string (a header cell that
  is a text) or an integer. A table of a single row is built without a header (line 18,
  \<^verbatim>\<open>pd.DataFrame(t)\<close>) and its labels are the positions 0, 1, 2, ...; a numeric header
  cell of the spreadsheet is an integer label as well.

  A cell is a Python object: a string, \<^verbatim>\<open>None\<close> (an empty cell of an extracted PDF
  table) or the float NaN (an empty spreadsheet cell, or a column missing from one of the
  concatenated tables). Numeric cells are rendered by float formatting, which is outside
  this model: a present cell is held by its text.

  A string is the list of its characters. The characters of the model are the code
  points up to U+00FF; only the byte encoding of the export depends on that bound (two
  bytes are enough for such a character). \<^verbatim>\<open>str.lower\<close> is the library's, and aware of
  Unicode: it is not defined here but is a parameter \<open>str_lower\<close> of every function
  that calls it, so that every theorem holds of whatever \<^verbatim>\<open>str.lower\<close> computes.
\<close>

datatype label = Name string | Pos nat

datatype cell = Str string | PyNone | NaN

datatype py_error = AttributeError | KeyError | TypeError | ValueError

type_synonym series = "cell list"

text \<open>
  A frame to be compared is read one column at a time: it is the list of its columns, in
  column order, each with its cells in row order (the row index is the position, a
  \<^verbatim>\<open>RangeIndex\<close>, as \<^verbatim>\<open>read_excel\<close> and \<^verbatim>\<open>concat(ignore_index=True)\<close> produce).
\<close>

type_synonym dataframe = "(label \<times> series) list"

definition columns :: "dataframe \<Rightarrow> label list" where
  "columns df = map fst df"

text \<open>
  \<^verbatim>\<open>df[col]\<close>: \<^verbatim>\<open>KeyError\<close> when the frame has no column of that label, the column when
  it has one, and the frame of all the columns of that label when it has several.
\<close>

datatype selection = Column series | Subframe "series list"

definition getitem :: "dataframe \<Rightarrow> label \<Rightarrow> py_error + selection" where
  "getitem df c =
     (case map snd (filter (\<lambda>(l, s). l = c) df) of
        [] \<Rightarrow> Inl KeyError
      | [s] \<Rightarrow> Inr (Column s)
      | s # t # ss \<Rightarrow> Inr (Subframe (s # t # ss)))"

subsection \<open>Python strings, sets and dicts\<close>

text \<open>
  \<^verbatim>\<open>c.lower()\<close>: only a string has the method; an integer label raises.
\<close>

fun lower :: "(string \<Rightarrow> string) \<Rightarrow> label \<Rightarrow> py_error + string" where
  "lower str_lower (Name s) = Inr (str_lower s)"
| "lower str_lower (Pos n) = Inl AttributeError"

text \<open>
  On a text of ASCII characters \<^verbatim>\<open>str.lower\<close> maps the letters A to Z to a to z and
  keeps every other character. The examples below are ASCII texts and take this function
  for \<open>str_lower\<close>.
\<close>

definition lower_char :: "char \<Rightarrow> char" where
  "lower_char c =
     (let n = (of_char c :: nat) in if 65 \<le> n \<and> n \<le> 90 then char_of (n + 32) else c)"

definition ascii_lower :: "string \<Rightarrow> string" where
  "ascii_lower s = map lower_char s"

text \<open>
  A Python set is held as a duplicate-free list. CPython iterates a set in hash order,
  which the program does not control; the model lists the elements in one fixed order,
  and the theorems below speak of the elements, not of their order.
\<close>

definition py_set :: "'a list \<Rightarrow> 'a list" where
  "py_set xs = remdups xs"

definition intersection :: "'a list \<Rightarrow> 'a list \<Rightarrow> 'a list" where
  "intersection s t = filter (\<lambda>x. x \<in> set t) s"

text \<open>
  A dict is an association list in insertion order; \<^verbatim>\<open>d[k] = v\<close> is
  \<^const>\<open>AList.update\<close>: it overwrites the value of a key already present (keeping its
  place) and appends a new key.

  \<^verbatim>\<open>{c.lower(): c for c in cols}\<close> (lines 27 and 28), from the dict built so far:
\<close>

fun lower_dict ::
  "(string \<Rightarrow> string) \<Rightarrow> label list \<Rightarrow> (string \<times> label) list \<Rightarrow>
   py_error + (string \<times> label) list" where
  "lower_dict str_lower [] d = Inr d"
| "lower_dict str_lower (c # cs) d =
     (case lower str_lower c of
        Inl e \<Rightarrow> Inl e
      | Inr k \<Rightarrow> lower_dict str_lower cs (AList.update k c d))"

text \<open>\<^verbatim>\<open>{df1_cols_lower[c]: df2_cols_lower[c] for c in shared_cols_lower}\<close> (line 30).\<close>

fun pair_dict ::
  "(string \<times> label) list \<Rightarrow> (string \<times> label) list \<Rightarrow> string list \<Rightarrow>
   (label \<times> label) list \<Rightarrow> py_error + (label \<times> label) list" where
  "pair_dict d1 d2 [] acc = Inr acc"
| "pair_dict d1 d2 (c # cs) acc =
     (case map_of d1 c of
        None \<Rightarrow> Inl KeyError
      | Some a \<Rightarrow>
          (case map_of d2 c of
             None \<Rightarrow> Inl KeyError
           | Some b \<Rightarrow> pair_dict d1 d2 cs (AList.update a b acc)))"

section \<open>Column Matcher\<close>

text \<open>
  \<^verbatim>\<open>match_columns\<close> returns a set of labels when the two frames share a label, and a
  dict from labels of the first frame to labels of the second otherwise.
\<close>

datatype shared_cols = ColSet "label list" | ColDict "(label \<times> label) list"

definition match_columns ::
  "(string \<Rightarrow> string) \<Rightarrow> dataframe \<Rightarrow> dataframe \<Rightarrow> py_error + shared_cols" where
  "match_columns str_lower df1 df2 =
     (let shared_cols = intersection (py_set (columns df1)) (py_set (columns df2)) in
      if shared_cols \<noteq> [] then Inr (ColSet shared_cols)
      else
        (case lower_dict str_lower (columns df1) [] of
           Inl e \<Rightarrow> Inl e
         | Inr df1_cols_lower \<Rightarrow>
             (case lower_dict str_lower (columns df2) [] of
                Inl e \<Rightarrow> Inl e
              | Inr df2_cols_lower \<Rightarrow>
                  (case pair_dict df1_cols_lower df2_cols_lower
                          (intersection (py_set (map fst df1_cols_lower)) (map fst df2_cols_lower)) [] of
                     Inl e \<Rightarrow> Inl e
                   | Inr d \<Rightarrow> Inr (ColDict d)))))"

text \<open>
  Line 36: \<^verbatim>\<open>shared_cols.items() if isinstance(shared_cols, dict) else zip(shared_cols, shared_cols)\<close>.
\<close>

fun col_pairs :: "shared_cols \<Rightarrow> (label \<times> label) list" where
  "col_pairs (ColDict d) = d"
| "col_pairs (ColSet s) = zip s s"

section \<open>Row Aligner and Value Comparator\<close>

text \<open>
  \<^verbatim>\<open>astype(str)\<close> on a column of objects applies \<^verbatim>\<open>str\<close> to every element, the
  missing ones included: \<^verbatim>\<open>str(None)\<close> is \<^verbatim>\<open>'None'\<close> and \<^verbatim>\<open>str(float('nan'))\<close> is
  \<^verbatim>\<open>'nan'\<close> (the conversion of pandas before 3.0, which does not skip missing values).
\<close>

fun py_str :: "cell \<Rightarrow> string" where
  "py_str (Str s) = s"
| "py_str PyNone = ''None''"
| "py_str NaN = ''nan''"

definition astype_str :: "series \<Rightarrow> series" where
  "astype_str s = map (\<lambda>c. Str (py_str c)) s"

fun isna :: "cell \<Rightarrow> bool" where
  "isna (Str s) = False"
| "isna PyNone = True"
| "isna NaN = True"

definition fillna :: "cell \<Rightarrow> series \<Rightarrow> series" where
  "fillna v s = map (\<lambda>c. if isna c then v else c) s"

text \<open>
  \<^verbatim>\<open>s.reindex(range(n), fill_value=v)\<close> on a series indexed by position: the rows at
  positions below \<open>n\<close> are kept, the positions the series does not have are filled.
\<close>

definition reindex :: "nat \<Rightarrow> cell \<Rightarrow> series \<Rightarrow> series" where
  "reindex n v s = take n s @ replicate (n - length s) v"

text \<open>
  The element-wise \<^verbatim>\<open>!=\<close> of two columns of objects: true when either side is missing,
  the inequality of the two objects otherwise.
\<close>

definition ne :: "cell \<Rightarrow> cell \<Rightarrow> bool" where
  "ne a b = (isna a \<or> isna b \<or> a \<noteq> b)"

text \<open>Lines 37 to 41: the two columns, normalised and brought to one length.\<close>

definition align :: "series \<Rightarrow> series \<Rightarrow> series \<times> series" where
  "align c1 c2 =
     (let s1 = fillna (Str '''') (astype_str c1);
          s2 = fillna (Str '''') (astype_str c2);
          max_len = max (length s1) (length s2)
      in (reindex max_len (Str '''') s1, reindex max_len (Str '''') s2))"

text \<open>
  Line 42: the rows of the two aligned columns at which they differ, each with its
  row index.
\<close>

definition column_mismatches :: "series \<Rightarrow> series \<Rightarrow> (nat \<times> cell \<times> cell) list" where
  "column_mismatches c1 c2 =
     (case align c1 c2 of
        (s1, s2) \<Rightarrow> filter (\<lambda>(i, a, b). ne a b) (zip [0..<length s1] (zip s1 s2)))"

section \<open>Mismatch Aggregator\<close>

text \<open>
  The report is a frame read row by row: its column names, its row index and its rows.
  A value of the report is a cell of one of the two sources or a column label.
\<close>

datatype entry = Cell cell | Label label

record frame =
  fcolumns :: "string list"
  findex :: "nat list"
  fdata :: "entry list list"

text \<open>\<^verbatim>\<open>pd.DataFrame()\<close>: no column and no row.\<close>

definition empty_frame :: frame where
  "empty_frame = \<lparr>fcolumns = [], findex = [], fdata = []\<rparr>"

text \<open>\<^verbatim>\<open>df.empty\<close>: one of the two axes has length zero.\<close>

definition empty :: "frame \<Rightarrow> bool" where
  "empty f = (fcolumns f = [] \<or> findex f = [])"

text \<open>\<^verbatim>\<open>pd.DataFrame({"Excel": s1, "PDF": s2}).loc[s1 != s2]\<close> as a frame.\<close>

definition mismatch_frame :: "series \<Rightarrow> series \<Rightarrow> frame" where
  "mismatch_frame c1 c2 =
     \<lparr>fcolumns = [''Excel'', ''PDF''],
      findex = map fst (column_mismatches c1 c2),
      fdata = map (\<lambda>(i, a, b). [Cell a, Cell b]) (column_mismatches c1 c2)\<rparr>"

text \<open>\<^verbatim>\<open>f[name] = v\<close> for a new column and one value for all rows.\<close>

definition set_column :: "string \<Rightarrow> entry \<Rightarrow> frame \<Rightarrow> frame" where
  "set_column name v f =
     f\<lparr>fcolumns := fcolumns f @ [name], fdata := map (\<lambda>r. r @ [v]) (fdata f)\<rparr>"

text \<open>
  \<^verbatim>\<open>pd.concat(diffs)\<close> for frames that all have the same columns, as the frames
  collected by the loop do: the rows one after the other, each keeping its index.
\<close>

fun pd_concat :: "frame list \<Rightarrow> frame" where
  "pd_concat [] = empty_frame"
| "pd_concat (f # fs) =
     \<lparr>fcolumns = fcolumns f,
      findex = concat (map findex (f # fs)),
      fdata = concat (map fdata (f # fs))\<rparr>"

text \<open>
  The loop of lines 36 to 45, over the pairs still to visit, with \<open>diffs\<close> so far.
  When one of the two selections is a frame (its label occurs more than once), lines
  37 to 41 go through (\<^verbatim>\<open>astype\<close>, \<^verbatim>\<open>fillna\<close>, \<^verbatim>\<open>len\<close> and \<^verbatim>\<open>reindex\<close> accept a
  frame) and the construction of line 42 raises \<^verbatim>\<open>ValueError\<close>: a column of a frame
  cannot be built from a frame.
\<close>

fun compare_loop ::
  "dataframe \<Rightarrow> dataframe \<Rightarrow> (label \<times> label) list \<Rightarrow> frame list \<Rightarrow> py_error + frame list" where
  "compare_loop df_excel df_pdf [] diffs = Inr diffs"
| "compare_loop df_excel df_pdf ((col_excel, col_pdf) # rest) diffs =
     (case getitem df_excel col_excel of
        Inl e \<Rightarrow> Inl e
      | Inr x1 \<Rightarrow>
          (case getitem df_pdf col_pdf of
             Inl e \<Rightarrow> Inl e
           | Inr x2 \<Rightarrow>
               (case (x1, x2) of
                  (Column c1, Column c2) \<Rightarrow>
                    (let mismatches = mismatch_frame c1 c2 in
                     compare_loop df_excel df_pdf rest
                       (if \<not> empty mismatches
                        then diffs @ [set_column ''Column'' (Label col_excel) mismatches]
                        else diffs))
                | _ \<Rightarrow> Inl ValueError)))"

definition compare_dataframes_smart ::
  "(string \<Rightarrow> string) \<Rightarrow> dataframe \<Rightarrow> dataframe \<Rightarrow> py_error + frame" where
  "compare_dataframes_smart str_lower df_excel df_pdf =
     (case match_columns str_lower df_excel df_pdf of
        Inl e \<Rightarrow> Inl e
      | Inr shared_cols \<Rightarrow>
          (case compare_loop df_excel df_pdf (col_pairs shared_cols) [] of
             Inl e \<Rightarrow> Inl e
           | Inr diffs \<Rightarrow> Inr (if diffs \<noteq> [] then pd_concat diffs else empty_frame)))"

section \<open>Presentation: flattened text and CSV export\<close>

text \<open>
  Line 81: \<^verbatim>\<open>"\n".join(excel_data.astype(str).fillna("").values.flatten())\<close>. On a frame
  \<^verbatim>\<open>astype\<close> and \<^verbatim>\<open>fillna\<close> work column by column; \<^verbatim>\<open>values.flatten()\<close> lists the cells
  row by row; \<^verbatim>\<open>join\<close> raises \<^verbatim>\<open>TypeError\<close> on an element that is not a string.
\<close>

definition df_astype_str :: "dataframe \<Rightarrow> dataframe" where
  "df_astype_str df = map (\<lambda>(c, s). (c, astype_str s)) df"

definition df_fillna :: "cell \<Rightarrow> dataframe \<Rightarrow> dataframe" where
  "df_fillna v df = map (\<lambda>(c, s). (c, fillna v s)) df"

definition values_flatten :: "dataframe \<Rightarrow> cell list" where
  "values_flatten df = concat (transpose (map snd df))"

fun str_join :: "string \<Rightarrow> cell list \<Rightarrow> py_error + string" where
  "str_join sep [] = Inr []"
| "str_join sep [Str s] = Inr s"
| "str_join sep (Str s # c # cs) =
     (case str_join sep (c # cs) of Inl e \<Rightarrow> Inl e | Inr t \<Rightarrow> Inr (s @ sep @ t))"
| "str_join sep (c # cs) = Inl TypeError"

definition excel_text :: "dataframe \<Rightarrow> py_error + string" where
  "excel_text excel_data =
     str_join [CHR 0x0A] (values_flatten (df_fillna (Str '''') (df_astype_str excel_data)))"

text \<open>
  \<^verbatim>\<open>to_csv\<close> is modelled up to the table of fields it writes: the header line, then one
  line for each row. With \<^verbatim>\<open>index=True\<close> every line starts with the row's index (the
  header with an empty name); with \<^verbatim>\<open>index=False\<close> the index is left out. A missing
  value is written as the empty field. The quoting of fields and the line terminator
  are the csv writer's and are not modelled.
\<close>

fun decimal :: "nat \<Rightarrow> string" where
  "decimal n =
     (if n < 10 then [char_of (48 + n)] else decimal (n div 10) @ [char_of (48 + n mod 10)])"

declare decimal.simps [simp del]

fun entry_str :: "entry \<Rightarrow> string" where
  "entry_str (Cell (Str s)) = s"
| "entry_str (Cell PyNone) = ''''"
| "entry_str (Cell NaN) = ''''"
| "entry_str (Label (Name s)) = s"
| "entry_str (Label (Pos n)) = decimal n"

definition to_csv :: "bool \<Rightarrow> frame \<Rightarrow> string list list" where
  "to_csv index f =
     ((if index then [''''] else []) @ fcolumns f) #
     map (\<lambda>(i, r). (if index then [decimal i] else []) @ map entry_str r)
       (zip (findex f) (fdata f))"

text \<open>
  \<^verbatim>\<open>text.encode("utf-8")\<close>: a character below U+0080 is one byte, its code point; a
  character from U+0080 on (up to U+07FF, which covers the characters of the model) is
  two bytes, the lead byte \<open>110xxxxx\<close> with the high bits of the code point and the
  continuation byte \<open>10xxxxxx\<close> with its six low bits. A byte is a number below 256.
\<close>

definition utf8_char :: "char \<Rightarrow> nat list" where
  "utf8_char c =
     (let n = (of_char c :: nat) in
      if n < 128 then [n] else [192 + n div 64, 128 + n mod 64])"

definition encode_utf8 :: "string \<Rightarrow> nat list" where
  "encode_utf8 s = concat (map utf8_char s)"

text \<open>
  The reader of UTF-8, for the sequences of one and two bytes: \<open>None\<close> on a byte that
  starts no such sequence, on a missing or malformed continuation byte and on a code
  point beyond the characters of the model.
\<close>

fun decode_utf8 :: "nat list \<Rightarrow> string option" where
  "decode_utf8 [] = Some []"
| "decode_utf8 [b] = (if b < 128 then Some [char_of b] else None)"
| "decode_utf8 (b # c # bs) =
     (if b < 128 then map_option ((#) (char_of b)) (decode_utf8 (c # bs))
      else if 192 \<le> b \<and> b < 224 \<and> 128 \<le> c \<and> c < 192 \<and> (b - 192) * 64 + (c - 128) < 256
      then map_option ((#) (char_of ((b - 192) * 64 + (c - 128)))) (decode_utf8 bs)
      else None)"

text \<open>
  Lines 93 to 95: the export offered for download when the report is not empty,
  \<^verbatim>\<open>data_diff.to_csv(index=False).encode("utf-8")\<close>. UTF-8 encodes a text character by
  character and the writer's separators are ASCII, so the bytes of a line are the bytes of
  its fields between the bytes of the separators: the export is held as the table of the
  encoded fields.
\<close>

definition csv :: "frame \<Rightarrow> nat list list list option" where
  "csv data_diff =
     (if \<not> empty data_diff then Some (map (map encode_utf8) (to_csv False data_diff)) else None)"

section \<open>Notions used to state the properties\<close>

text \<open>A label that is a string, so that it can be lower-cased.\<close>

fun is_name :: "label \<Rightarrow> bool" where
  "is_name (Name s) = True"
| "is_name (Pos n) = False"

text \<open>
  The last label of \<open>cs\<close>, in the order of the list, whose lower-cased form is \<open>k\<close>.
\<close>

definition last_with :: "(string \<Rightarrow> string) \<Rightarrow> label list \<Rightarrow> string \<Rightarrow> label option" where
  "last_with str_lower cs k = find (\<lambda>x. lower str_lower x = Inr k) (rev cs)"

text \<open>The column of a label that the frame has once (the empty column otherwise).\<close>

definition the_column :: "dataframe \<Rightarrow> label \<Rightarrow> series" where
  "the_column df c = (case getitem df c of Inr (Column s) \<Rightarrow> s | _ \<Rightarrow> [])"

text \<open>
  The positions, in increasing order, at which two columns differ once they are
  normalised and aligned.
\<close>

definition differing :: "series \<Rightarrow> series \<Rightarrow> nat list" where
  "differing c1 c2 =
     filter (\<lambda>i. fst (align c1 c2) ! i \<noteq> snd (align c1 c2) ! i)
       [0..<max (length c1) (length c2)]"

section \<open>Column Matcher: properties\<close>

lemma find_append_case:
  "find P (xs @ ys) = (case find P xs of None \<Rightarrow> find P ys | Some x \<Rightarrow> Some x)"
  by (induction xs) auto

lemma last_with_Cons:
  "last_with lw (c # cs) k =
     (case last_with lw cs k of Some x \<Rightarrow> Some x | None \<Rightarrow> if lower lw c = Inr k then Some c else None)"
  by (simp add: last_with_def find_append_case split: option.splits)

lemma last_with_SomeD:
  "last_with lw cs k = Some a \<Longrightarrow> a \<in> set cs \<and> lower lw a = Inr k"
  unfolding last_with_def by (induction cs) (auto simp: find_append_case split: option.splits if_splits)

lemma last_with_None_iff:
  "last_with lw cs k = None \<longleftrightarrow> (\<forall>x\<in>set cs. lower lw x \<noteq> Inr k)"
  unfolding last_with_def by (auto simp: find_None_iff)

lemma lower_dict_names:
  "list_all is_name cs \<Longrightarrow>
     \<exists>d'. lower_dict lw cs d = Inr d' \<and>
          (distinct (map fst d) \<longrightarrow> distinct (map fst d')) \<and>
          (\<forall>k. map_of d' k = (case last_with lw cs k of Some c \<Rightarrow> Some c | None \<Rightarrow> map_of d k))"
proof (induction cs arbitrary: d)
  case Nil
  then show ?case by (simp add: last_with_def)
next
  case (Cons c cs)
  then obtain s where c: "c = Name s" by (cases c) auto
  from Cons.prems have "list_all is_name cs" by simp
  from Cons.IH [OF this, of "AList.update (lw s) c d"]
  obtain d' where d': "lower_dict lw cs (AList.update (lw s) c d) = Inr d'"
    "distinct (map fst (AList.update (lw s) c d)) \<longrightarrow> distinct (map fst d')"
    "\<And>k. map_of d' k = (case last_with lw cs k of Some c \<Rightarrow> Some c
                             | None \<Rightarrow> map_of (AList.update (lw s) c d) k)"
    by blast
  have "lower_dict lw (c # cs) d = Inr d'" using d'(1) c by simp
  moreover have "distinct (map fst d) \<longrightarrow> distinct (map fst d')"
    using d'(2) by (simp add: distinct_update)
  moreover have "map_of d' k = (case last_with lw (c # cs) k of Some c \<Rightarrow> Some c | None \<Rightarrow> map_of d k)" for k
    using c by (auto simp: d'(3) last_with_Cons update_conv' split: option.splits)
  ultimately show ?case by blast
qed

lemma lower_dict_empty:
  assumes "list_all is_name cs"
  obtains d where "lower_dict lw cs [] = Inr d" "distinct (map fst d)" "map_of d = last_with lw cs"
proof -
  from lower_dict_names [OF assms, of lw "[]"] obtain d where
    d: "lower_dict lw cs [] = Inr d" "distinct (map fst d)"
       "\<And>k. map_of d k = (case last_with lw cs k of Some c \<Rightarrow> Some c | None \<Rightarrow> map_of [] k)"
    by auto
  have "map_of d = last_with lw cs"
    by (rule ext) (simp add: d(3) split: option.splits)
  with d(1,2) show thesis by (rule that)
qed

lemma lower_dict_not_names:
  "\<not> list_all is_name cs \<Longrightarrow> lower_dict lw cs d = Inl AttributeError"
proof (induction cs arbitrary: d)
  case Nil
  then show ?case by simp
next
  case (Cons c cs)
  show ?case
  proof (cases c)
    case (Name s)
    with Cons.prems have "\<not> list_all is_name cs" by simp
    from Cons.IH [OF this] Name show ?thesis by simp
  next
    case (Pos n)
    then show ?thesis by simp
  qed
qed

lemma update_fresh: "a \<notin> fst ` set al \<Longrightarrow> AList.update a b al = al @ [(a, b)]"
  by (induction al) auto

lemma pair_dict_fresh:
  "distinct ks \<Longrightarrow> inj_on f (set ks) \<Longrightarrow> (\<forall>k\<in>set ks. f k \<notin> fst ` set acc) \<Longrightarrow>
   (\<forall>k\<in>set ks. map_of d1 k = Some (f k) \<and> map_of d2 k = Some (g k)) \<Longrightarrow>
   pair_dict d1 d2 ks acc = Inr (acc @ map (\<lambda>k. (f k, g k)) ks)"
proof (induction ks arbitrary: acc)
  case Nil
  then show ?case by simp
next
  case (Cons k ks)
  have fresh: "\<forall>k'\<in>set ks. f k' \<notin> fst ` set (acc @ [(f k, g k)])"
    using Cons.prems by (auto simp: inj_on_def)
  have "pair_dict d1 d2 (k # ks) acc = pair_dict d1 d2 ks (acc @ [(f k, g k)])"
    using Cons.prems by (simp add: update_fresh)
  also have "\<dots> = Inr ((acc @ [(f k, g k)]) @ map (\<lambda>k. (f k, g k)) ks)"
    using Cons.prems fresh by (intro Cons.IH) (auto simp: inj_on_def)
  finally show ?case by simp
qed

lemma set_intersection: "set (intersection s t) = set s \<inter> set t"
  by (auto simp: intersection_def)

lemma distinct_intersection: "distinct s \<Longrightarrow> distinct (intersection s t)"
  by (simp add: intersection_def)

text \<open>
  The lower-casing pass on frames whose labels are all strings: one pair for each
  lower-cased name that occurs on both sides, made of the last label with that name of
  the first frame and the last label with that name of the second.
\<close>

lemma match_columns_fallback:
  assumes disj: "set (columns df1) \<inter> set (columns df2) = {}"
    and n1: "list_all is_name (columns df1)"
    and n2: "list_all is_name (columns df2)"
  shows "\<exists>ks. distinct ks \<and>
           set ks = {k. last_with lw (columns df1) k \<noteq> None \<and> last_with lw (columns df2) k \<noteq> None} \<and>
           match_columns lw df1 df2 =
             Inr (ColDict (map (\<lambda>k. (the (last_with lw (columns df1) k),
                                     the (last_with lw (columns df2) k))) ks))"
proof -
  obtain d1 where d1: "lower_dict lw (columns df1) [] = Inr d1" "distinct (map fst d1)"
      "map_of d1 = last_with lw (columns df1)"
    using lower_dict_empty [OF n1] by blast
  obtain d2 where d2: "lower_dict lw (columns df2) [] = Inr d2" "distinct (map fst d2)"
      "map_of d2 = last_with lw (columns df2)"
    using lower_dict_empty [OF n2] by blast
  define ks where "ks = intersection (py_set (map fst d1)) (map fst d2)"
  define f where "f k = the (last_with lw (columns df1) k)" for k
  define g where "g k = the (last_with lw (columns df2) k)" for k
  have dist: "distinct ks"
    by (simp add: ks_def distinct_intersection py_set_def)
  have "set ks = dom (map_of d1) \<inter> dom (map_of d2)"
    by (simp add: ks_def set_intersection py_set_def dom_map_of_conv_image_fst)
  then have set_ks: "set ks = {k. last_with lw (columns df1) k \<noteq> None \<and> last_with lw (columns df2) k \<noteq> None}"
    by (auto simp: d1(3) d2(3) dom_def)
  have look: "\<forall>k\<in>set ks. map_of d1 k = Some (f k) \<and> map_of d2 k = Some (g k)"
    using set_ks by (auto simp: d1(3) d2(3) f_def g_def)
  have low: "lower lw (f k) = Inr k" if "k \<in> set ks" for k
    using look that last_with_SomeD [of lw "columns df1" k "f k"] by (simp add: d1(3))
  have inj: "inj_on f (set ks)"
  proof (rule inj_onI)
    fix x y assume "x \<in> set ks" "y \<in> set ks" "f x = f y"
    then show "x = y" by (metis low Inr_inject)
  qed
  have "pair_dict d1 d2 ks [] = Inr ([] @ map (\<lambda>k. (f k, g k)) ks)"
    by (rule pair_dict_fresh [OF dist inj _ look]) simp
  then have pd: "pair_dict d1 d2 (intersection (py_set (map fst d1)) (map fst d2)) [] =
      Inr (map (\<lambda>k. (f k, g k)) ks)"
    by (simp add: ks_def)
  have "set (intersection (py_set (columns df1)) (py_set (columns df2))) = {}"
    using disj by (simp add: set_intersection py_set_def)
  then have "intersection (py_set (columns df1)) (py_set (columns df2)) = []"
    by simp
  then have "match_columns lw df1 df2 = Inr (ColDict (map (\<lambda>k. (f k, g k)) ks))"
    by (simp add: match_columns_def d1(1) d2(1) pd)
  with dist set_ks show ?thesis unfolding f_def g_def by blast
qed

text \<open>The lower-casing pass raises as soon as a label of either frame is not a string.\<close>

lemma match_columns_fallback_raises:
  assumes disj: "set (columns df1) \<inter> set (columns df2) = {}"
    and n: "\<not> (list_all is_name (columns df1) \<and> list_all is_name (columns df2))"
  shows "match_columns lw df1 df2 = Inl AttributeError"
proof -
  have "set (intersection (py_set (columns df1)) (py_set (columns df2))) = {}"
    using disj by (simp add: set_intersection py_set_def)
  then have e: "intersection (py_set (columns df1)) (py_set (columns df2)) = []"
    by simp
  show ?thesis
  proof (cases "list_all is_name (columns df1)")
    case False
    from lower_dict_not_names [OF this] e show ?thesis
      by (simp add: match_columns_def)
  next
    case True
    with n have n2: "\<not> list_all is_name (columns df2)" by simp
    obtain d1 where d1: "lower_dict lw (columns df1) [] = Inr d1"
      using lower_dict_empty [OF True] by blast
    show ?thesis
      by (simp add: match_columns_def e d1 lower_dict_not_names [OF n2])
  qed
qed

lemma last_with_Some_split:
  "last_with lw cs k = Some a \<Longrightarrow>
     \<exists>ys zs. cs = ys @ a # zs \<and> lower lw a = Inr k \<and> (\<forall>z\<in>set zs. lower lw z \<noteq> Inr k)"
proof (induction cs)
  case Nil
  then show ?case by (simp add: last_with_def)
next
  case (Cons c cs)
  show ?case
  proof (cases "last_with lw cs k")
    case None
    with Cons.prems have "a = c" "lower lw c = Inr k"
      by (auto simp: last_with_Cons split: if_splits)
    moreover from None have "\<forall>z\<in>set cs. lower lw z \<noteq> Inr k"
      by (simp add: last_with_None_iff)
    ultimately have "c # cs = [] @ a # cs \<and> lower lw a = Inr k \<and> (\<forall>z\<in>set cs. lower lw z \<noteq> Inr k)"
      by simp
    then show ?thesis by blast
  next
    case (Some x)
    with Cons.prems have "last_with lw cs k = Some a"
      by (simp add: last_with_Cons)
    from Cons.IH [OF this] obtain ys zs where
      "cs = ys @ a # zs" "lower lw a = Inr k" "\<forall>z\<in>set zs. lower lw z \<noteq> Inr k"
      by blast
    then have "c # cs = (c # ys) @ a # zs \<and> lower lw a = Inr k \<and> (\<forall>z\<in>set zs. lower lw z \<noteq> Inr k)"
      by simp
    then show ?thesis by blast
  qed
qed

lemma lower_name: "is_name c \<Longrightarrow> \<exists>k. lower lw c = Inr k"
  by (cases c) auto

lemma last_with_exists: "x \<in> set cs \<Longrightarrow> lower lw x = Inr k \<Longrightarrow> last_with lw cs k \<noteq> None"
  by (auto simp: last_with_None_iff)

text \<open>Whatever the matcher returns pairs a label of the first frame with one of the second.\<close>

lemma match_columns_labels:
  assumes "match_columns lw df1 df2 = Inr shared"
    and "(a, b) \<in> set (col_pairs shared)"
  shows "a \<in> set (columns df1) \<and> b \<in> set (columns df2)"
proof (cases "set (columns df1) \<inter> set (columns df2) = {}")
  case False
  let ?cs = "intersection (py_set (columns df1)) (py_set (columns df2))"
  have s: "set ?cs = set (columns df1) \<inter> set (columns df2)"
    by (simp add: set_intersection py_set_def)
  with False have "?cs \<noteq> []" by auto
  then have "match_columns lw df1 df2 = Inr (ColSet ?cs)"
    by (simp add: match_columns_def)
  with assms(1) have "shared = ColSet ?cs" by simp
  with assms(2) have "(a, b) \<in> set (zip ?cs ?cs)"
    by simp
  then have "a \<in> set ?cs \<and> a = b"
    by (metis zip_same)
  with s show ?thesis by blast
next
  case True
  have names: "list_all is_name (columns df1) \<and> list_all is_name (columns df2)"
  proof (rule ccontr)
    assume "\<not> ?thesis"
    from match_columns_fallback_raises [OF True this, of lw] assms(1) show False by simp
  qed
  from match_columns_fallback [OF True names [THEN conjunct1] names [THEN conjunct2], of lw]
  obtain ks where
    ks: "set ks = {k. last_with lw (columns df1) k \<noteq> None \<and> last_with lw (columns df2) k \<noteq> None}"
      "match_columns lw df1 df2 =
         Inr (ColDict (map (\<lambda>k. (the (last_with lw (columns df1) k),
                                 the (last_with lw (columns df2) k))) ks))"
    by blast
  from ks(2) assms(1) have
    "shared = ColDict (map (\<lambda>k. (the (last_with lw (columns df1) k),
                                 the (last_with lw (columns df2) k))) ks)"
    by simp
  with assms(2) obtain k where k: "k \<in> set ks" "a = the (last_with lw (columns df1) k)"
    "b = the (last_with lw (columns df2) k)"
    by auto
  from k(1) ks(1) obtain a' b' where
    "last_with lw (columns df1) k = Some a'" "last_with lw (columns df2) k = Some b'"
    by auto
  with k(2,3) last_with_SomeD [of lw "columns df1" k a'] last_with_SomeD [of lw "columns df2" k b']
  show ?thesis by simp
qed

text \<open>
  Claim C2. When the two frames share at least one column label exactly,
  \<^verbatim>\<open>match_columns\<close> returns the set of the shared labels and nothing else: every label of
  both frames is in it, once, and the comparison pairs each of them with itself. The
  lower-casing pass is not run: the result is a set, not a dict, and no label is
  lower-cased (so a label that is not a string raises nothing).
\<close>

theorem match_columns_exact:
  assumes "set (columns df1) \<inter> set (columns df2) \<noteq> {}"
  shows "\<exists>cs. match_columns str_lower df1 df2 = Inr (ColSet cs) \<and> distinct cs \<and>
              set cs = set (columns df1) \<inter> set (columns df2) \<and>
              col_pairs (ColSet cs) = map (\<lambda>c. (c, c)) cs"
proof -
  let ?cs = "intersection (py_set (columns df1)) (py_set (columns df2))"
  have s: "set ?cs = set (columns df1) \<inter> set (columns df2)"
    by (simp add: set_intersection py_set_def)
  with assms have "?cs \<noteq> []" by auto
  then have "match_columns str_lower df1 df2 = Inr (ColSet ?cs)"
    by (simp add: match_columns_def)
  moreover have "distinct ?cs"
    by (simp add: distinct_intersection py_set_def)
  moreover have "col_pairs (ColSet ?cs) = map (\<lambda>c. (c, c)) ?cs"
    by (simp add: zip_same_conv_map)
  ultimately show ?thesis using s by blast
qed

theorem match_columns_exact_witness:
  "set (columns [(Name ''Name'', [Str ''Alice'']), (Pos 0, [Str ''x''])]) \<inter>
     set (columns [(Pos 1, [Str ''y'']), (Name ''Name'', [Str ''Bob''])]) \<noteq> {} \<and>
   (\<exists>cs. match_columns ascii_lower [(Name ''Name'', [Str ''Alice'']), (Pos 0, [Str ''x''])]
                        [(Pos 1, [Str ''y'']), (Name ''Name'', [Str ''Bob''])] = Inr (ColSet cs) \<and>
         distinct cs \<and>
         set cs = set (columns [(Name ''Name'', [Str ''Alice'']), (Pos 0, [Str ''x''])]) \<inter>
                  set (columns [(Pos 1, [Str ''y'']), (Name ''Name'', [Str ''Bob''])]) \<and>
         col_pairs (ColSet cs) = map (\<lambda>c. (c, c)) cs) \<and>
   match_columns ascii_lower [(Name ''Name'', [Str ''Alice'']), (Pos 0, [Str ''x''])]
                 [(Pos 1, [Str ''y'']), (Name ''Name'', [Str ''Bob''])] = Inr (ColSet [Name ''Name''])"
proof -
  have h: "set (columns [(Name ''Name'', [Str ''Alice'']), (Pos 0, [Str ''x''])]) \<inter>
     set (columns [(Pos 1, [Str ''y'']), (Name ''Name'', [Str ''Bob''])]) \<noteq> {}"
    by code_simp
  have e: "match_columns ascii_lower [(Name ''Name'', [Str ''Alice'']), (Pos 0, [Str ''x''])]
                 [(Pos 1, [Str ''y'']), (Name ''Name'', [Str ''Bob''])] = Inr (ColSet [Name ''Name''])"
    by code_simp
  from h match_columns_exact [OF h, of ascii_lower] e show ?thesis by blast
qed

text \<open>
  Claim C3 does not hold of the code for every pair of frames with a case-insensitive
  overlap and no exact one: when one of the frames also has an integer label, here the
  numeric header 2023 beside "Total", the lower-casing pass raises
  \<^verbatim>\<open>AttributeError\<close> on it, whatever \<^verbatim>\<open>str.lower\<close> computes, and no mapping is returned.
  The same holds for a PDF frame with the labels "total" and 0.
\<close>

theorem case_insensitive_match_with_integer_label_raises:
  "match_columns str_lower [(Name ''Total'', [Str ''10'']), (Pos 2023, [Str ''7''])]
                           [(Name ''total'', [Str ''10''])] = Inl AttributeError \<and>
   match_columns str_lower [(Name ''Total'', [Str ''10''])]
                           [(Name ''total'', [Str ''10'']), (Pos 0, [Str ''7''])] = Inl AttributeError"
  by (simp add: match_columns_def columns_def py_set_def intersection_def)

text \<open>
  Where all labels are strings the lower-casing pass does what the claim says: it returns
  a dict with exactly one pair for each lower-cased name that occurs on both sides, from a
  label of the first frame to a label of the second, both with that lower-cased name.
\<close>

lemma match_columns_case_insensitive:
  assumes "set (columns df1) \<inter> set (columns df2) = {}"
    and "list_all is_name (columns df1)"
    and "list_all is_name (columns df2)"
  shows "\<exists>d. match_columns lw df1 df2 = Inr (ColDict d) \<and>
             distinct (map (lower lw \<circ> fst) d) \<and>
             set (map (lower lw \<circ> fst) d) = lower lw ` set (columns df1) \<inter> lower lw ` set (columns df2) \<and>
             (\<forall>(a, b) \<in> set d. a \<in> set (columns df1) \<and> b \<in> set (columns df2) \<and> lower lw b = lower lw a)"
proof -
  from match_columns_fallback [OF assms, of lw] obtain ks where
    ks: "distinct ks"
      "set ks = {k. last_with lw (columns df1) k \<noteq> None \<and> last_with lw (columns df2) k \<noteq> None}"
      "match_columns lw df1 df2 =
         Inr (ColDict (map (\<lambda>k. (the (last_with lw (columns df1) k), the (last_with lw (columns df2) k))) ks))"
    by blast
  let ?d = "map (\<lambda>k. (the (last_with lw (columns df1) k), the (last_with lw (columns df2) k))) ks"
  have f: "the (last_with lw (columns df1) k) \<in> set (columns df1) \<and>
           lower lw (the (last_with lw (columns df1) k)) = Inr k"
    and g: "the (last_with lw (columns df2) k) \<in> set (columns df2) \<and>
            lower lw (the (last_with lw (columns df2) k)) = Inr k"
    if "k \<in> set ks" for k
    using that ks(2) last_with_SomeD by fastforce+
  have m: "map (lower lw \<circ> fst) ?d = map Inr ks"
    using f by simp
  have "distinct (map (lower lw \<circ> fst) ?d)"
    unfolding m using ks(1) by (simp add: distinct_map)
  moreover have "set (map (lower lw \<circ> fst) ?d) = lower lw ` set (columns df1) \<inter> lower lw ` set (columns df2)"
  proof -
    have "Inr ` set ks = lower lw ` set (columns df1) \<inter> lower lw ` set (columns df2)" (is "?L = ?R")
    proof (rule set_eqI)
      fix v
      show "v \<in> ?L \<longleftrightarrow> v \<in> ?R"
      proof
        assume "v \<in> ?L"
        then obtain k where "k \<in> set ks" "v = Inr k" by blast
        with f [of k] g [of k] show "v \<in> ?R" by (metis IntI imageI)
      next
        assume "v \<in> ?R"
        then obtain x y where xy: "x \<in> set (columns df1)" "v = lower lw x"
            "y \<in> set (columns df2)" "v = lower lw y"
          by blast
        from xy(1) assms(2) have "is_name x" by (simp add: list_all_iff)
        then obtain k where k: "lower lw x = Inr k" using lower_name by blast
        with xy have "last_with lw (columns df1) k \<noteq> None" "last_with lw (columns df2) k \<noteq> None"
          by (metis last_with_exists)+
        then have "k \<in> set ks" using ks(2) by simp
        with k xy(2) show "v \<in> ?L" by simp
      qed
    qed
    then show ?thesis unfolding m by simp
  qed
  moreover have "\<forall>(a, b) \<in> set ?d. a \<in> set (columns df1) \<and> b \<in> set (columns df2) \<and> lower lw b = lower lw a"
    using f g by auto
  ultimately show ?thesis using ks(3) by blast
qed

text \<open>
  Claim C10 does not hold of the code for every pair of frames that reaches the
  lower-casing pass: with the columns "Total" and "TOTAL" on one side and an integer
  label on either side the pass raises \<^verbatim>\<open>AttributeError\<close>, whatever \<^verbatim>\<open>str.lower\<close>
  computes, and no column is chosen.
\<close>

theorem collision_with_integer_label_raises:
  "match_columns str_lower [(Name ''Total'', [Str ''1'']), (Name ''TOTAL'', [Str ''2''])]
                           [(Name ''total'', [Str ''1'']), (Pos 0, [Str ''2''])] = Inl AttributeError \<and>
   match_columns str_lower [(Name ''Total'', [Str ''1'']), (Name ''TOTAL'', [Str ''2'']), (Pos 2023, [Str ''3''])]
                           [(Name ''total'', [Str ''1''])] = Inl AttributeError"
  by (simp add: match_columns_def columns_def py_set_def intersection_def)

text \<open>
  Where all labels are strings the collision is resolved by the last occurrence, as
  the claim says: the dict has one pair for each lower-cased name that occurs on both
  sides, and no other; the pair is made of the last label of the first frame with that
  lower-cased name and the last label of the second with it (no later column of the frame
  lower-cases to the name). Of the columns "Total" and "TOTAL", in that order, the
  mapping uses "TOTAL".
\<close>

lemma fallback_collision_last_occurrence:
  assumes "set (columns df1) \<inter> set (columns df2) = {}"
    and "list_all is_name (columns df1)"
    and "list_all is_name (columns df2)"
  shows "\<exists>ks. distinct ks \<and>
           set ks = {k. (\<exists>x\<in>set (columns df1). lower lw x = Inr k) \<and>
                        (\<exists>y\<in>set (columns df2). lower lw y = Inr k)} \<and>
           match_columns lw df1 df2 =
             Inr (ColDict (map (\<lambda>k. (the (last_with lw (columns df1) k),
                                     the (last_with lw (columns df2) k))) ks)) \<and>
           (\<forall>k\<in>set ks. \<exists>a b. last_with lw (columns df1) k = Some a \<and>
                              last_with lw (columns df2) k = Some b \<and>
                 (\<exists>ys zs. columns df1 = ys @ a # zs \<and> lower lw a = Inr k \<and>
                          (\<forall>z\<in>set zs. lower lw z \<noteq> Inr k)) \<and>
                 (\<exists>ys zs. columns df2 = ys @ b # zs \<and> lower lw b = Inr k \<and>
                          (\<forall>z\<in>set zs. lower lw z \<noteq> Inr k)))"
proof -
  from match_columns_fallback [OF assms, of lw] obtain ks where
    ks: "distinct ks"
      "set ks = {k. last_with lw (columns df1) k \<noteq> None \<and> last_with lw (columns df2) k \<noteq> None}"
      "match_columns lw df1 df2 =
         Inr (ColDict (map (\<lambda>k. (the (last_with lw (columns df1) k), the (last_with lw (columns df2) k))) ks))"
    by blast
  have "set ks = {k. (\<exists>x\<in>set (columns df1). lower lw x = Inr k) \<and>
                     (\<exists>y\<in>set (columns df2). lower lw y = Inr k)}"
    unfolding ks(2) by (auto simp: last_with_None_iff)
  moreover have "\<exists>a b. last_with lw (columns df1) k = Some a \<and> last_with lw (columns df2) k = Some b \<and>
                 (\<exists>ys zs. columns df1 = ys @ a # zs \<and> lower lw a = Inr k \<and>
                          (\<forall>z\<in>set zs. lower lw z \<noteq> Inr k)) \<and>
                 (\<exists>ys zs. columns df2 = ys @ b # zs \<and> lower lw b = Inr k \<and>
                          (\<forall>z\<in>set zs. lower lw z \<noteq> Inr k))"
    if "k \<in> set ks" for k
  proof -
    from that ks(2) obtain a b where
      ab: "last_with lw (columns df1) k = Some a" "last_with lw (columns df2) k = Some b"
      by auto
    from last_with_Some_split [OF ab(1)] last_with_Some_split [OF ab(2)] ab
    show ?thesis by blast
  qed
  ultimately show ?thesis using ks(1,3) by blast
qed

lemma fallback_collision_example:
  "match_columns ascii_lower [(Name ''Total'', [Str ''1'']), (Name ''TOTAL'', [Str ''2''])]
                 [(Name ''total'', [Str ''1'']), (Name ''ToTaL'', [Str ''2''])] =
     Inr (ColDict [(Name ''TOTAL'', Name ''ToTaL'')]) \<and>
   match_columns ascii_lower [(Name ''Total'', [Str ''10''])] [(Name ''total'', [Str ''10''])] =
     Inr (ColDict [(Name ''Total'', Name ''total'')]) \<and>
   compare_dataframes_smart ascii_lower [(Name ''Total'', [Str ''10''])] [(Name ''total'', [Str ''10''])] =
     Inr empty_frame"
  by code_simp

section \<open>Row Aligner and Value Comparator: properties\<close>

lemma fillna_astype_str: "fillna v (astype_str s) = astype_str s"
  by (simp add: fillna_def astype_str_def)

lemma length_astype_str: "length (astype_str s) = length s"
  by (simp add: astype_str_def)

lemma align_eq:
  "align c1 c2 =
     (astype_str c1 @ replicate (length c2 - length c1) (Str ''''),
      astype_str c2 @ replicate (length c1 - length c2) (Str ''''))"
  by (simp add: align_def Let_def reindex_def fillna_astype_str length_astype_str max_def)

lemma length_align_fst: "length (fst (align c1 c2)) = max (length c1) (length c2)"
  by (simp add: align_eq length_astype_str max_def)

lemma length_align_snd: "length (snd (align c1 c2)) = max (length c1) (length c2)"
  by (simp add: align_eq length_astype_str max_def)

lemma nth_align_fst:
  "i < max (length c1) (length c2) \<Longrightarrow>
     fst (align c1 c2) ! i = (if i < length c1 then fillna (Str '''') (astype_str c1) ! i else Str '''')"
  by (auto simp: align_eq fillna_astype_str nth_append length_astype_str)

lemma nth_align_snd:
  "i < max (length c1) (length c2) \<Longrightarrow>
     snd (align c1 c2) ! i = (if i < length c2 then fillna (Str '''') (astype_str c2) ! i else Str '''')"
  by (auto simp: align_eq fillna_astype_str nth_append length_astype_str)

lemma align_fst_not_na: "a \<in> set (fst (align c1 c2)) \<Longrightarrow> \<not> isna a"
  by (auto simp: align_eq astype_str_def)

lemma align_snd_not_na: "b \<in> set (snd (align c1 c2)) \<Longrightarrow> \<not> isna b"
  by (auto simp: align_eq astype_str_def)

lemma zip_upt_nth:
  "length xs = n \<Longrightarrow> length ys = n \<Longrightarrow>
     zip [0..<n] (zip xs ys) = map (\<lambda>i. (i, xs ! i, ys ! i)) [0..<n]"
  by (rule nth_equalityI) simp_all

lemma column_mismatches_nth:
  "column_mismatches c1 c2 =
     map (\<lambda>i. (i, fst (align c1 c2) ! i, snd (align c1 c2) ! i))
       (filter (\<lambda>i. fst (align c1 c2) ! i \<noteq> snd (align c1 c2) ! i) [0..<max (length c1) (length c2)])"
proof -
  let ?n = "max (length c1) (length c2)"
  let ?s1 = "fst (align c1 c2)" and ?s2 = "snd (align c1 c2)"
  have z: "zip [0..<?n] (zip ?s1 ?s2) = map (\<lambda>i. (i, ?s1 ! i, ?s2 ! i)) [0..<?n]"
    by (rule zip_upt_nth) (simp_all add: length_align_fst length_align_snd)
  have n: "ne (?s1 ! i) (?s2 ! i) \<longleftrightarrow> ?s1 ! i \<noteq> ?s2 ! i" if "i < ?n" for i
  proof -
    from that have "?s1 ! i \<in> set ?s1" "?s2 ! i \<in> set ?s2"
      by (simp_all add: length_align_fst length_align_snd)
    then have "\<not> isna (?s1 ! i)" "\<not> isna (?s2 ! i)"
      by (simp_all add: align_fst_not_na align_snd_not_na)
    then show ?thesis by (simp add: ne_def)
  qed
  have "column_mismatches c1 c2 = filter (\<lambda>(i, a, b). ne a b) (zip [0..<?n] (zip ?s1 ?s2))"
    using length_align_fst [of c1 c2] by (cases "align c1 c2") (simp add: column_mismatches_def)
  also have "\<dots> = map (\<lambda>i. (i, ?s1 ! i, ?s2 ! i)) (filter (\<lambda>i. ne (?s1 ! i) (?s2 ! i)) [0..<?n])"
    unfolding z by (simp add: filter_map comp_def)
  also have "filter (\<lambda>i. ne (?s1 ! i) (?s2 ! i)) [0..<?n] = filter (\<lambda>i. ?s1 ! i \<noteq> ?s2 ! i) [0..<?n]"
    by (rule filter_cong) (simp_all add: n)
  finally show ?thesis .
qed

lemma mismatch_indices:
  "map fst (column_mismatches c1 c2) =
     filter (\<lambda>i. fst (align c1 c2) ! i \<noteq> snd (align c1 c2) ! i) [0..<max (length c1) (length c2)]"
  by (subst column_mismatches_nth) (simp add: comp_def)

lemma mismatch_member:
  "(i, a, b) \<in> set (column_mismatches c1 c2) \<longleftrightarrow>
     i < max (length c1) (length c2) \<and> a = fst (align c1 c2) ! i \<and> b = snd (align c1 c2) ! i \<and> a \<noteq> b"
  by (subst column_mismatches_nth) auto

lemma no_mismatch_iff:
  "column_mismatches c1 c2 = [] \<longleftrightarrow> fst (align c1 c2) = snd (align c1 c2)"
proof -
  have "column_mismatches c1 c2 = [] \<longleftrightarrow>
        (\<forall>i < max (length c1) (length c2). fst (align c1 c2) ! i = snd (align c1 c2) ! i)"
    by (subst column_mismatches_nth) (auto simp: filter_empty_conv)
  also have "\<dots> \<longleftrightarrow> fst (align c1 c2) = snd (align c1 c2)"
    by (auto simp: list_eq_iff_nth_eq length_align_fst length_align_snd)
  finally show ?thesis .
qed

text \<open>
  Claim C4. The two normalised columns are brought to the length of the longer one: the
  aligned columns have that length, position \<open>i\<close> of an aligned column holds the
  normalised cell at position \<open>i\<close> of its source where the source has one and the empty
  string where it has none, and every reported mismatch at row \<open>i\<close> holds the two
  aligned values of position \<open>i\<close> (rows are paired by position only). For the column
  "X" with \<open>["1","2","3"]\<close> against \<open>["1","2"]\<close> the report is the single row 2
  with "3" against the empty string.
\<close>

theorem align_by_position_with_filler:
  "length (fst (align c1 c2)) = max (length c1) (length c2) \<and>
   length (snd (align c1 c2)) = max (length c1) (length c2) \<and>
   (\<forall>i < max (length c1) (length c2).
       fst (align c1 c2) ! i =
         (if i < length c1 then fillna (Str '''') (astype_str c1) ! i else Str '''') \<and>
       snd (align c1 c2) ! i =
         (if i < length c2 then fillna (Str '''') (astype_str c2) ! i else Str '''')) \<and>
   (\<forall>(i, a, b) \<in> set (column_mismatches c1 c2).
       i < max (length c1) (length c2) \<and> a = fst (align c1 c2) ! i \<and> b = snd (align c1 c2) ! i) \<and>
   compare_dataframes_smart str_lower [(Name ''X'', [Str ''1'', Str ''2'', Str ''3''])]
                            [(Name ''X'', [Str ''1'', Str ''2''])] =
     Inr \<lparr>fcolumns = [''Excel'', ''PDF'', ''Column''], findex = [2],
          fdata = [[Cell (Str ''3''), Cell (Str ''''), Label (Name ''X'')]]\<rparr>"
proof -
  have "compare_dataframes_smart str_lower [(Name ''X'', [Str ''1'', Str ''2'', Str ''3''])]
                            [(Name ''X'', [Str ''1'', Str ''2''])] =
     Inr \<lparr>fcolumns = [''Excel'', ''PDF'', ''Column''], findex = [2],
          fdata = [[Cell (Str ''3''), Cell (Str ''''), Label (Name ''X'')]]\<rparr>"
    by code_simp
  moreover have "\<forall>(i, a, b) \<in> set (column_mismatches c1 c2).
       i < max (length c1) (length c2) \<and> a = fst (align c1 c2) ! i \<and> b = snd (align c1 c2) ! i"
    by (auto simp: mismatch_member)
  ultimately show ?thesis
    using length_align_fst [of c1 c2] length_align_snd [of c1 c2]
      nth_align_fst [of _ c1 c2] nth_align_snd [of _ c1 c2]
    by blast
qed

theorem align_by_position_with_filler_witness:
  "(2::nat) < max (length [Str ''1'', Str ''2'', Str ''3'']) (length [Str ''1'', Str ''2'']) \<and>
   length (snd (align [Str ''1'', Str ''2'', Str ''3''] [Str ''1'', Str ''2''])) = 3 \<and>
   fst (align [Str ''1'', Str ''2'', Str ''3''] [Str ''1'', Str ''2'']) ! 2 = Str ''3'' \<and>
   snd (align [Str ''1'', Str ''2'', Str ''3''] [Str ''1'', Str ''2'']) ! 2 = Str '''' \<and>
   column_mismatches [Str ''1'', Str ''2'', Str ''3''] [Str ''1'', Str ''2''] = [(2, Str ''3'', Str '''')]"
proof -
  have h: "(2::nat) < max (length [Str ''1'', Str ''2'', Str ''3'']) (length [Str ''1'', Str ''2''])"
    by simp
  have e: "column_mismatches [Str ''1'', Str ''2'', Str ''3''] [Str ''1'', Str ''2''] = [(2, Str ''3'', Str '''')]"
    by code_simp
  from align_by_position_with_filler [of "[Str ''1'', Str ''2'', Str ''3'']" "[Str ''1'', Str ''2'']"]
  have l: "length (snd (align [Str ''1'', Str ''2'', Str ''3''] [Str ''1'', Str ''2''])) =
           max (length [Str ''1'', Str ''2'', Str ''3'']) (length [Str ''1'', Str ''2''])"
    and n: "\<forall>i < max (length [Str ''1'', Str ''2'', Str ''3'']) (length [Str ''1'', Str ''2'']).
       fst (align [Str ''1'', Str ''2'', Str ''3''] [Str ''1'', Str ''2'']) ! i =
         (if i < length [Str ''1'', Str ''2'', Str ''3'']
          then fillna (Str '''') (astype_str [Str ''1'', Str ''2'', Str ''3'']) ! i else Str '''') \<and>
       snd (align [Str ''1'', Str ''2'', Str ''3''] [Str ''1'', Str ''2'']) ! i =
         (if i < length [Str ''1'', Str ''2'']
          then fillna (Str '''') (astype_str [Str ''1'', Str ''2'']) ! i else Str '''')"
    by blast+
  from n h have
    "fst (align [Str ''1'', Str ''2'', Str ''3''] [Str ''1'', Str ''2'']) ! 2 =
       (if (2::nat) < length [Str ''1'', Str ''2'', Str ''3'']
        then fillna (Str '''') (astype_str [Str ''1'', Str ''2'', Str ''3'']) ! 2 else Str '''')"
    "snd (align [Str ''1'', Str ''2'', Str ''3''] [Str ''1'', Str ''2'']) ! 2 =
       (if (2::nat) < length [Str ''1'', Str ''2'']
        then fillna (Str '''') (astype_str [Str ''1'', Str ''2'']) ! 2 else Str '''')"
    by blast+
  then have "fst (align [Str ''1'', Str ''2'', Str ''3''] [Str ''1'', Str ''2'']) ! 2 = Str ''3''"
    "snd (align [Str ''1'', Str ''2'', Str ''3''] [Str ''1'', Str ''2'']) ! 2 = Str ''''"
    by (simp_all add: fillna_def astype_str_def)
  with h l e show ?thesis by simp
qed

text \<open>
  Claim C7, as stated, fails: the row indices of the reported mismatches do not cover
  the range of the longer column. For \<open>["1","2","3"]\<close> against \<open>["1","2"]\<close> the only
  index reported is 2.
\<close>

theorem mismatch_indices_cover_counterexample:
  "set (map fst (column_mismatches [Str ''1'', Str ''2'', Str ''3''] [Str ''1'', Str ''2''])) \<noteq>
     {0..<max (length [Str ''1'', Str ''2'', Str ''3'']) (length [Str ''1'', Str ''2''])}"
proof -
  have "map fst (column_mismatches [Str ''1'', Str ''2'', Str ''3''] [Str ''1'', Str ''2'']) = [2]"
    by code_simp
  then have "(0::nat) \<notin> set (map fst (column_mismatches [Str ''1'', Str ''2'', Str ''3''] [Str ''1'', Str ''2'']))"
    by simp
  moreover have "(0::nat) \<in> {0..<max (length [Str ''1'', Str ''2'', Str ''3'']) (length [Str ''1'', Str ''2''])}"
    by simp
  ultimately show ?thesis by metis
qed

text \<open>
  Claim C7, amended. Every position below the length of the longer column is compared,
  and the row indices reported are those of them where the aligned values differ: they
  lie in that range, each at most once. A position beyond the end of the shorter column
  has the empty string on the shorter side, and is reported exactly when the longer
  column's normalised value there is not the empty string.
\<close>

theorem mismatch_indices_within_range:
  "map fst (column_mismatches c1 c2) =
     filter (\<lambda>i. fst (align c1 c2) ! i \<noteq> snd (align c1 c2) ! i) [0..<max (length c1) (length c2)] \<and>
   set (map fst (column_mismatches c1 c2)) \<subseteq> {0..<max (length c1) (length c2)} \<and>
   distinct (map fst (column_mismatches c1 c2)) \<and>
   (\<forall>i. length c2 \<le> i \<and> i < length c1 \<longrightarrow>
        snd (align c1 c2) ! i = Str '''' \<and>
        (i \<in> set (map fst (column_mismatches c1 c2)) \<longleftrightarrow> fst (align c1 c2) ! i \<noteq> Str '''')) \<and>
   (\<forall>i. length c1 \<le> i \<and> i < length c2 \<longrightarrow>
        fst (align c1 c2) ! i = Str '''' \<and>
        (i \<in> set (map fst (column_mismatches c1 c2)) \<longleftrightarrow> snd (align c1 c2) ! i \<noteq> Str ''''))"
proof -
  let ?ix = "map fst (column_mismatches c1 c2)"
  have ix: "?ix = filter (\<lambda>i. fst (align c1 c2) ! i \<noteq> snd (align c1 c2) ! i)
                    [0..<max (length c1) (length c2)]"
    by (rule mismatch_indices)
  have sub: "set ?ix \<subseteq> {0..<max (length c1) (length c2)}"
    unfolding ix by auto
  have dist: "distinct ?ix"
    unfolding ix by simp
  have a: "snd (align c1 c2) ! i = Str '''' \<and>
        (i \<in> set ?ix \<longleftrightarrow> fst (align c1 c2) ! i \<noteq> Str '''')"
    if "length c2 \<le> i \<and> i < length c1" for i
  proof -
    from that have "i < max (length c1) (length c2)" by simp
    moreover from this that have "snd (align c1 c2) ! i = Str ''''"
      by (simp add: nth_align_snd)
    ultimately show ?thesis unfolding ix by auto
  qed
  have b: "fst (align c1 c2) ! i = Str '''' \<and>
        (i \<in> set ?ix \<longleftrightarrow> snd (align c1 c2) ! i \<noteq> Str '''')"
    if "length c1 \<le> i \<and> i < length c2" for i
  proof -
    from that have "i < max (length c1) (length c2)" by simp
    moreover from this that have "fst (align c1 c2) ! i = Str ''''"
      by (simp add: nth_align_fst)
    ultimately show ?thesis unfolding ix by auto
  qed
  from ix sub dist a b show ?thesis by blast
qed

theorem mismatch_indices_within_range_witness:
  "length [Str ''1'', Str ''2''] \<le> (2::nat) \<and> (2::nat) < length [Str ''1'', Str ''2'', Str ''3'', Str ''''] \<and>
   length [Str ''1'', Str ''2''] \<le> (3::nat) \<and> (3::nat) < length [Str ''1'', Str ''2'', Str ''3'', Str ''''] \<and>
   snd (align [Str ''1'', Str ''2'', Str ''3'', Str ''''] [Str ''1'', Str ''2'']) ! 2 = Str '''' \<and>
   snd (align [Str ''1'', Str ''2'', Str ''3'', Str ''''] [Str ''1'', Str ''2'']) ! 3 = Str '''' \<and>
   (2 \<in> set (map fst (column_mismatches [Str ''1'', Str ''2'', Str ''3'', Str ''''] [Str ''1'', Str ''2''])) \<longleftrightarrow>
      fst (align [Str ''1'', Str ''2'', Str ''3'', Str ''''] [Str ''1'', Str ''2'']) ! 2 \<noteq> Str '''') \<and>
   (3 \<in> set (map fst (column_mismatches [Str ''1'', Str ''2'', Str ''3'', Str ''''] [Str ''1'', Str ''2''])) \<longleftrightarrow>
      fst (align [Str ''1'', Str ''2'', Str ''3'', Str ''''] [Str ''1'', Str ''2'']) ! 3 \<noteq> Str '''') \<and>
   column_mismatches [Str ''1'', Str ''2'', Str ''3'', Str ''''] [Str ''1'', Str ''2''] =
     [(2, Str ''3'', Str '''')]"
proof -
  have h2: "length [Str ''1'', Str ''2''] \<le> (2::nat) \<and> (2::nat) < length [Str ''1'', Str ''2'', Str ''3'', Str '''']"
    by simp
  have h3: "length [Str ''1'', Str ''2''] \<le> (3::nat) \<and> (3::nat) < length [Str ''1'', Str ''2'', Str ''3'', Str '''']"
    by simp
  have e: "column_mismatches [Str ''1'', Str ''2'', Str ''3'', Str ''''] [Str ''1'', Str ''2''] =
     [(2, Str ''3'', Str '''')]"
    by code_simp
  from mismatch_indices_within_range [of "[Str ''1'', Str ''2'', Str ''3'', Str '''']" "[Str ''1'', Str ''2'']"]
  have r: "\<forall>i. length [Str ''1'', Str ''2''] \<le> i \<and> i < length [Str ''1'', Str ''2'', Str ''3'', Str ''''] \<longrightarrow>
        snd (align [Str ''1'', Str ''2'', Str ''3'', Str ''''] [Str ''1'', Str ''2'']) ! i = Str '''' \<and>
        (i \<in> set (map fst (column_mismatches [Str ''1'', Str ''2'', Str ''3'', Str ''''] [Str ''1'', Str ''2''])) \<longleftrightarrow>
           fst (align [Str ''1'', Str ''2'', Str ''3'', Str ''''] [Str ''1'', Str ''2'']) ! i \<noteq> Str '''')"
    by blast
  from r h2 r h3 e h2 h3 show ?thesis by blast
qed

section \<open>Mismatch report: properties\<close>

lemma differing_indices: "map fst (column_mismatches c1 c2) = differing c1 c2"
  by (simp add: mismatch_indices differing_def)

lemma mismatches_differing:
  "column_mismatches c1 c2 =
     map (\<lambda>i. (i, fst (align c1 c2) ! i, snd (align c1 c2) ! i)) (differing c1 c2)"
  unfolding differing_def by (rule column_mismatches_nth)

lemma differing_Nil_iff: "differing c1 c2 = [] \<longleftrightarrow> fst (align c1 c2) = snd (align c1 c2)"
  using no_mismatch_iff [of c1 c2] by (simp add: mismatches_differing)

lemma empty_mismatch_frame_iff: "empty (mismatch_frame c1 c2) \<longleftrightarrow> differing c1 c2 = []"
  by (simp add: empty_def mismatch_frame_def differing_indices)

lemma tagged_mismatch_frame:
  "fcolumns (set_column ''Column'' (Label c) (mismatch_frame c1 c2)) = [''Excel'', ''PDF'', ''Column''] \<and>
   findex (set_column ''Column'' (Label c) (mismatch_frame c1 c2)) = differing c1 c2 \<and>
   fdata (set_column ''Column'' (Label c) (mismatch_frame c1 c2)) =
     map (\<lambda>i. [Cell (fst (align c1 c2) ! i), Cell (snd (align c1 c2) ! i), Label c]) (differing c1 c2)"
proof -
  have "fdata (set_column ''Column'' (Label c) (mismatch_frame c1 c2)) =
          map (\<lambda>(i, a, b). [Cell a, Cell b, Label c]) (column_mismatches c1 c2)"
    by (simp add: set_column_def mismatch_frame_def case_prod_unfold)
  also have "\<dots> = map (\<lambda>i. [Cell (fst (align c1 c2) ! i), Cell (snd (align c1 c2) ! i), Label c])
                      (differing c1 c2)"
    by (subst mismatches_differing) (simp add: comp_def)
  finally show ?thesis
    by (simp add: set_column_def mismatch_frame_def differing_indices)
qed

lemma length_filter_label:
  "length (filter (\<lambda>(l, s). l = c) df) = count_list (columns df) c"
  by (induction df) (auto simp: columns_def)

text \<open>A label that the frame has once selects its column.\<close>

lemma getitem_once:
  assumes "count_list (columns df) c = 1"
  shows "getitem df c = Inr (Column (the_column df c))"
proof -
  from assms have "length (filter (\<lambda>(l, s). l = c) df) = 1"
    by (simp add: length_filter_label)
  then obtain p where "filter (\<lambda>(l, s). l = c) df = [p]"
    by (cases "filter (\<lambda>(l, s). l = c) df") auto
  then have "getitem df c = Inr (Column (snd p))"
    by (simp add: getitem_def)
  then show ?thesis by (simp add: the_column_def)
qed

text \<open>A label that the frame has more than once selects a frame.\<close>

lemma getitem_repeated:
  assumes "2 \<le> count_list (columns df) c"
  shows "\<exists>ss. getitem df c = Inr (Subframe ss)"
proof -
  from assms have "2 \<le> length (filter (\<lambda>(l, s). l = c) df)"
    by (simp add: length_filter_label)
  then obtain p q rs where "filter (\<lambda>(l, s). l = c) df = p # q # rs"
    by (cases "filter (\<lambda>(l, s). l = c) df" rule: list.exhaust [case_names Nil Cons])
       (auto simp: Suc_le_eq length_Suc_conv neq_Nil_conv)
  then show ?thesis by (simp add: getitem_def)
qed

lemma getitem_present:
  assumes "c \<in> set (columns df)"
  shows "\<exists>x. getitem df c = Inr x"
proof (cases "count_list (columns df) c = 1")
  case True
  from getitem_once [OF this] show ?thesis by blast
next
  case False
  moreover from assms have "count_list (columns df) c \<noteq> 0"
    by (simp add: count_list_0_iff)
  ultimately have "2 \<le> count_list (columns df) c" by arith
  from getitem_repeated [OF this] show ?thesis by blast
qed

text \<open>
  The loop, when every pair selects a column on both sides: it appends, for each pair
  in turn whose columns differ somewhere, the frame of that pair's mismatches tagged with
  the label of the first frame.
\<close>

lemma compare_loop_explicit:
  "(\<And>a b. (a, b) \<in> set ps \<Longrightarrow>
       getitem df_excel a = Inr (Column (the_column df_excel a)) \<and>
       getitem df_pdf b = Inr (Column (the_column df_pdf b))) \<Longrightarrow>
   compare_loop df_excel df_pdf ps diffs =
     Inr (diffs @
          map (\<lambda>(a, b). set_column ''Column'' (Label a)
                          (mismatch_frame (the_column df_excel a) (the_column df_pdf b)))
            (filter (\<lambda>(a, b). differing (the_column df_excel a) (the_column df_pdf b) \<noteq> []) ps))"
proof (induction ps arbitrary: diffs)
  case Nil
  then show ?case by simp
next
  case (Cons p ps)
  obtain a b where p: "p = (a, b)" by (cases p)
  from Cons.prems [of a b] p have
    g: "getitem df_excel a = Inr (Column (the_column df_excel a))"
       "getitem df_pdf b = Inr (Column (the_column df_pdf b))"
    by simp_all
  have rest: "getitem df_excel a' = Inr (Column (the_column df_excel a')) \<and>
       getitem df_pdf b' = Inr (Column (the_column df_pdf b'))"
    if "(a', b') \<in> set ps" for a' b'
    using Cons.prems [of a' b'] that by simp
  show ?case
  proof (cases "differing (the_column df_excel a) (the_column df_pdf b) = []")
    case True
    then have "compare_loop df_excel df_pdf (p # ps) diffs = compare_loop df_excel df_pdf ps diffs"
      by (simp add: p g empty_mismatch_frame_iff)
    with True show ?thesis
      by (simp add: Cons.IH [OF rest] p)
  next
    case False
    then have "compare_loop df_excel df_pdf (p # ps) diffs =
        compare_loop df_excel df_pdf ps
          (diffs @ [set_column ''Column'' (Label a)
                      (mismatch_frame (the_column df_excel a) (the_column df_pdf b))])"
      by (simp add: p g empty_mismatch_frame_iff)
    with False show ?thesis
      by (simp add: Cons.IH [OF rest] p)
  qed
qed

lemma concat_map_filter:
  "(\<And>x. x \<in> set xs \<Longrightarrow> \<not> P x \<Longrightarrow> f x = []) \<Longrightarrow> concat (map f (filter P xs)) = concat (map f xs)"
  by (induction xs) auto

lemma report_of_frames:
  "findex (if fs \<noteq> [] then pd_concat fs else empty_frame) = concat (map findex fs) \<and>
   fdata (if fs \<noteq> [] then pd_concat fs else empty_frame) = concat (map fdata fs) \<and>
   fcolumns (if fs \<noteq> [] then pd_concat fs else empty_frame) = (if fs = [] then [] else fcolumns (hd fs))"
  by (cases fs) (simp_all add: empty_frame_def)

text \<open>
  The whole comparison, once the columns are matched and when every matched label
  occurs once in its frame: the report, fully.
\<close>

lemma compare_explicit:
  assumes m: "match_columns lw df_excel df_pdf = Inr shared"
    and u: "\<forall>(a, b)\<in>set (col_pairs shared).
              count_list (columns df_excel) a = 1 \<and> count_list (columns df_pdf) b = 1"
  shows "\<exists>report. compare_dataframes_smart lw df_excel df_pdf = Inr report \<and>
     findex report =
       concat (map (\<lambda>(a, b). differing (the_column df_excel a) (the_column df_pdf b))
                 (col_pairs shared)) \<and>
     fdata report =
       concat (map (\<lambda>(a, b).
                 map (\<lambda>i. [Cell (fst (align (the_column df_excel a) (the_column df_pdf b)) ! i),
                           Cell (snd (align (the_column df_excel a) (the_column df_pdf b)) ! i),
                           Label a])
                   (differing (the_column df_excel a) (the_column df_pdf b)))
                 (col_pairs shared)) \<and>
     fcolumns report = (if findex report = [] then [] else [''Excel'', ''PDF'', ''Column''])"
proof -
  let ?ps = "col_pairs shared"
  let ?P = "\<lambda>(a, b). differing (the_column df_excel a) (the_column df_pdf b) \<noteq> []"
  let ?tag = "\<lambda>(a, b). set_column ''Column'' (Label a)
                          (mismatch_frame (the_column df_excel a) (the_column df_pdf b))"
  let ?fs = "map ?tag (filter ?P ?ps)"
  let ?report = "if ?fs \<noteq> [] then pd_concat ?fs else empty_frame"
  have sel: "getitem df_excel a = Inr (Column (the_column df_excel a)) \<and>
             getitem df_pdf b = Inr (Column (the_column df_pdf b))"
    if "(a, b) \<in> set ?ps" for a b
    using u that getitem_once [of df_excel a] getitem_once [of df_pdf b] by auto
  have "compare_loop df_excel df_pdf ?ps [] = Inr ([] @ ?fs)"
    by (rule compare_loop_explicit) (rule sel)
  then have run: "compare_dataframes_smart lw df_excel df_pdf = Inr ?report"
    by (simp add: compare_dataframes_smart_def m)
  have ix: "findex ?report =
       concat (map (\<lambda>(a, b). differing (the_column df_excel a) (the_column df_pdf b)) ?ps)"
  proof -
    have "findex ?report = concat (map findex ?fs)"
      by (rule report_of_frames [THEN conjunct1])
    also have "\<dots> = concat (map (\<lambda>(a, b). differing (the_column df_excel a) (the_column df_pdf b))
                              (filter ?P ?ps))"
      by (simp add: comp_def case_prod_unfold tagged_mismatch_frame)
    also have "\<dots> = concat (map (\<lambda>(a, b). differing (the_column df_excel a) (the_column df_pdf b)) ?ps)"
      by (rule concat_map_filter) auto
    finally show ?thesis .
  qed
  have dt: "fdata ?report =
       concat (map (\<lambda>(a, b).
                 map (\<lambda>i. [Cell (fst (align (the_column df_excel a) (the_column df_pdf b)) ! i),
                           Cell (snd (align (the_column df_excel a) (the_column df_pdf b)) ! i),
                           Label a])
                   (differing (the_column df_excel a) (the_column df_pdf b))) ?ps)"
  proof -
    have "fdata ?report = concat (map fdata ?fs)"
      by (rule report_of_frames [THEN conjunct2, THEN conjunct1])
    also have "\<dots> = concat (map (\<lambda>(a, b).
                 map (\<lambda>i. [Cell (fst (align (the_column df_excel a) (the_column df_pdf b)) ! i),
                           Cell (snd (align (the_column df_excel a) (the_column df_pdf b)) ! i),
                           Label a])
                   (differing (the_column df_excel a) (the_column df_pdf b))) (filter ?P ?ps))"
      by (simp add: comp_def case_prod_unfold tagged_mismatch_frame)
    also have "\<dots> = concat (map (\<lambda>(a, b).
                 map (\<lambda>i. [Cell (fst (align (the_column df_excel a) (the_column df_pdf b)) ! i),
                           Cell (snd (align (the_column df_excel a) (the_column df_pdf b)) ! i),
                           Label a])
                   (differing (the_column df_excel a) (the_column df_pdf b))) ?ps)"
      by (rule concat_map_filter) auto
    finally show ?thesis .
  qed
  have cols: "fcolumns ?report = (if findex ?report = [] then [] else [''Excel'', ''PDF'', ''Column''])"
  proof (cases "filter ?P ?ps")
    case Nil
    then show ?thesis by (simp add: empty_frame_def)
  next
    case (Cons p ps')
    obtain a b where p: "p = (a, b)" by (cases p)
    from Cons have "p \<in> set (filter ?P ?ps)" by simp
    with p have ne: "differing (the_column df_excel a) (the_column df_pdf b) \<noteq> []" by simp
    have "findex (pd_concat ?fs) \<noteq> []"
      unfolding Cons using ne p by (simp add: tagged_mismatch_frame)
    moreover have "fcolumns (pd_concat ?fs) = [''Excel'', ''PDF'', ''Column'']"
      unfolding Cons using p by (simp add: tagged_mismatch_frame)
    ultimately show ?thesis using Cons by simp
  qed
  from run ix dt cols show ?thesis by blast
qed

text \<open>
  When a matched label occurs more than once in its frame, the selection is a frame, not
  a column, and the comparison raises at line 42.
\<close>

lemma compare_loop_repeated:
  assumes "(a, b) \<in> set ps"
    and "2 \<le> count_list (columns df_excel) a \<or> 2 \<le> count_list (columns df_pdf) b"
    and present: "\<And>a b. (a, b) \<in> set ps \<Longrightarrow>
                    a \<in> set (columns df_excel) \<and> b \<in> set (columns df_pdf)"
  shows "compare_loop df_excel df_pdf ps diffs = Inl ValueError"
  using assms
proof (induction ps arbitrary: diffs)
  case Nil
  then show ?case by simp
next
  case (Cons p ps)
  obtain a0 b0 where p: "p = (a0, b0)" by (cases p)
  from Cons.prems(3) [of a0 b0] p have
    in0: "a0 \<in> set (columns df_excel)" "b0 \<in> set (columns df_pdf)"
    by simp_all
  show ?case
  proof (cases "count_list (columns df_excel) a0 = 1 \<and> count_list (columns df_pdf) b0 = 1")
    case True
    with Cons.prems(1,2) p have "(a, b) \<in> set ps" by auto
    moreover have "a' \<in> set (columns df_excel) \<and> b' \<in> set (columns df_pdf)"
      if "(a', b') \<in> set ps" for a' b'
      using Cons.prems(3) [of a' b'] that by simp
    ultimately have "compare_loop df_excel df_pdf ps ds = Inl ValueError" for ds
      using Cons.prems(2) by (intro Cons.IH)
    with True show ?thesis
      by (simp add: p getitem_once Let_def)
  next
    case False
    from in0 have "count_list (columns df_excel) a0 \<noteq> 0" "count_list (columns df_pdf) b0 \<noteq> 0"
      by (simp_all add: count_list_0_iff)
    with False have rep: "2 \<le> count_list (columns df_excel) a0 \<or> 2 \<le> count_list (columns df_pdf) b0"
      by arith
    from getitem_present [OF in0(1)] obtain x1 where x1: "getitem df_excel a0 = Inr x1" by blast
    from getitem_present [OF in0(2)] obtain x2 where x2: "getitem df_pdf b0 = Inr x2" by blast
    from rep have "(\<exists>ss. x1 = Subframe ss) \<or> (\<exists>ss. x2 = Subframe ss)"
      using getitem_repeated [of df_excel a0] getitem_repeated [of df_pdf b0] x1 x2 by auto
    then show ?thesis
      by (cases x1; cases x2) (auto simp: p x1 x2)
  qed
qed

lemma compare_repeated_label_raises:
  assumes m: "match_columns lw df_excel df_pdf = Inr shared"
    and "(a, b) \<in> set (col_pairs shared)"
    and "2 \<le> count_list (columns df_excel) a \<or> 2 \<le> count_list (columns df_pdf) b"
  shows "compare_dataframes_smart lw df_excel df_pdf = Inl ValueError"
proof -
  have "compare_loop df_excel df_pdf (col_pairs shared) [] = Inl ValueError"
    by (rule compare_loop_repeated [OF assms(2,3)]) (rule match_columns_labels [OF m])
  then show ?thesis by (simp add: compare_dataframes_smart_def m)
qed

lemma repeated_label_raises:
  "compare_dataframes_smart str_lower [(Name ''X'', [Str ''1''])]
     [(Name ''X'', [Str ''1'']), (Name ''X'', [Str ''2''])] = Inl ValueError"
  by code_simp

text \<open>
  Claim C5. Whatever columns the matcher has paired, when every matched label occurs
  once in its frame (for a repeated one see above; the specification leaves repeated
  names open) the comparison returns a report whose records are, for each matched pair in
  turn, exactly the positions, in increasing order, at which the two aligned normalised
  strings differ: the record holds the row index, the two strings and the label of the
  first frame's column. A position where the strings are equal gives no record. The
  report is the empty frame exactly when the aligned columns of every matched pair are
  equal everywhere (in particular when they have no rows).
\<close>

theorem mismatches_only:
  assumes "match_columns str_lower df_excel df_pdf = Inr shared_cols"
    and "\<forall>(a, b)\<in>set (col_pairs shared_cols).
           count_list (columns df_excel) a = 1 \<and> count_list (columns df_pdf) b = 1"
  shows "\<exists>report. compare_dataframes_smart str_lower df_excel df_pdf = Inr report \<and>
     findex report =
       concat (map (\<lambda>(a, b). differing (the_column df_excel a) (the_column df_pdf b))
                 (col_pairs shared_cols)) \<and>
     fdata report =
       concat (map (\<lambda>(a, b).
                 map (\<lambda>i. [Cell (fst (align (the_column df_excel a) (the_column df_pdf b)) ! i),
                           Cell (snd (align (the_column df_excel a) (the_column df_pdf b)) ! i),
                           Label a])
                   (differing (the_column df_excel a) (the_column df_pdf b)))
                 (col_pairs shared_cols)) \<and>
     fcolumns report = (if findex report = [] then [] else [''Excel'', ''PDF'', ''Column'']) \<and>
     (report = empty_frame \<longleftrightarrow>
        (\<forall>(a, b)\<in>set (col_pairs shared_cols).
            fst (align (the_column df_excel a) (the_column df_pdf b)) =
            snd (align (the_column df_excel a) (the_column df_pdf b))))"
proof -
  from compare_explicit [OF assms] obtain report where
    r: "compare_dataframes_smart str_lower df_excel df_pdf = Inr report"
      "findex report =
         concat (map (\<lambda>(a, b). differing (the_column df_excel a) (the_column df_pdf b))
                   (col_pairs shared_cols))"
      "fdata report =
         concat (map (\<lambda>(a, b).
                   map (\<lambda>i. [Cell (fst (align (the_column df_excel a) (the_column df_pdf b)) ! i),
                             Cell (snd (align (the_column df_excel a) (the_column df_pdf b)) ! i),
                             Label a])
                     (differing (the_column df_excel a) (the_column df_pdf b)))
                   (col_pairs shared_cols))"
      "fcolumns report = (if findex report = [] then [] else [''Excel'', ''PDF'', ''Column''])"
    by blast
  have all: "findex report = [] \<longleftrightarrow>
        (\<forall>(a, b)\<in>set (col_pairs shared_cols).
            fst (align (the_column df_excel a) (the_column df_pdf b)) =
            snd (align (the_column df_excel a) (the_column df_pdf b)))"
    unfolding r(2) by (auto simp: differing_Nil_iff)
  have "report = empty_frame \<longleftrightarrow> findex report = []"
  proof
    assume "report = empty_frame"
    then show "findex report = []" by (simp add: empty_frame_def)
  next
    assume e: "findex report = []"
    then have "\<forall>(a, b)\<in>set (col_pairs shared_cols).
                  differing (the_column df_excel a) (the_column df_pdf b) = []"
      unfolding r(2) by auto
    then have "fdata report = []"
      unfolding r(3) by auto
    with e r(4) show "report = empty_frame"
      by (simp add: empty_frame_def)
  qed
  with all r show ?thesis by blast
qed

theorem mismatches_only_witness:
  "match_columns ascii_lower
     [(Name ''Name'', [Str ''Alice'', Str ''Bob'']), (Name ''Age'', [Str ''30'', Str ''41''])]
     [(Name ''Name'', [Str ''Alice'', Str ''Bobby'']), (Name ''Age'', [Str ''30'', Str ''41''])] =
     Inr (ColSet [Name ''Name'', Name ''Age'']) \<and>
   list_all (\<lambda>(a, b).
        count_list (columns [(Name ''Name'', [Str ''Alice'', Str ''Bob'']),
                             (Name ''Age'', [Str ''30'', Str ''41''])]) a = 1 \<and>
        count_list (columns [(Name ''Name'', [Str ''Alice'', Str ''Bobby'']),
                             (Name ''Age'', [Str ''30'', Str ''41''])]) b = 1)
     (col_pairs (ColSet [Name ''Name'', Name ''Age''])) \<and>
   (\<exists>report.
      compare_dataframes_smart ascii_lower
        [(Name ''Name'', [Str ''Alice'', Str ''Bob'']), (Name ''Age'', [Str ''30'', Str ''41''])]
        [(Name ''Name'', [Str ''Alice'', Str ''Bobby'']), (Name ''Age'', [Str ''30'', Str ''41''])] =
        Inr report \<and>
      findex report =
        concat (map (\<lambda>(a, b).
                  differing
                    (the_column [(Name ''Name'', [Str ''Alice'', Str ''Bob'']), (Name ''Age'', [Str ''30'', Str ''41''])] a)
                    (the_column [(Name ''Name'', [Str ''Alice'', Str ''Bobby'']), (Name ''Age'', [Str ''30'', Str ''41''])] b))
                  (col_pairs (ColSet [Name ''Name'', Name ''Age'']))) \<and>
      report = \<lparr>fcolumns = [''Excel'', ''PDF'', ''Column''], findex = [1],
                fdata = [[Cell (Str ''Bob''), Cell (Str ''Bobby''), Label (Name ''Name'')]]\<rparr>) \<and>
   differing [Str ''Alice'', Str ''Bob''] [Str ''Alice'', Str ''Bobby''] = [1] \<and>
   differing [Str ''30'', Str ''41''] [Str ''30'', Str ''41''] = []"
proof -
  have h1: "match_columns ascii_lower
     [(Name ''Name'', [Str ''Alice'', Str ''Bob'']), (Name ''Age'', [Str ''30'', Str ''41''])]
     [(Name ''Name'', [Str ''Alice'', Str ''Bobby'']), (Name ''Age'', [Str ''30'', Str ''41''])] =
     Inr (ColSet [Name ''Name'', Name ''Age''])"
    by code_simp
  have h2: "list_all (\<lambda>(a, b).
        count_list (columns [(Name ''Name'', [Str ''Alice'', Str ''Bob'']),
                             (Name ''Age'', [Str ''30'', Str ''41''])]) a = 1 \<and>
        count_list (columns [(Name ''Name'', [Str ''Alice'', Str ''Bobby'']),
                             (Name ''Age'', [Str ''30'', Str ''41''])]) b = 1)
     (col_pairs (ColSet [Name ''Name'', Name ''Age'']))"
    by code_simp
  then have h2': "\<forall>(a, b)\<in>set (col_pairs (ColSet [Name ''Name'', Name ''Age''])).
        count_list (columns [(Name ''Name'', [Str ''Alice'', Str ''Bob'']),
                             (Name ''Age'', [Str ''30'', Str ''41''])]) a = 1 \<and>
        count_list (columns [(Name ''Name'', [Str ''Alice'', Str ''Bobby'']),
                             (Name ''Age'', [Str ''30'', Str ''41''])]) b = 1"
    by (simp only: list_all_iff)
  have e: "compare_dataframes_smart ascii_lower
        [(Name ''Name'', [Str ''Alice'', Str ''Bob'']), (Name ''Age'', [Str ''30'', Str ''41''])]
        [(Name ''Name'', [Str ''Alice'', Str ''Bobby'']), (Name ''Age'', [Str ''30'', Str ''41''])] =
        Inr \<lparr>fcolumns = [''Excel'', ''PDF'', ''Column''], findex = [1],
                fdata = [[Cell (Str ''Bob''), Cell (Str ''Bobby''), Label (Name ''Name'')]]\<rparr>"
    by code_simp
  have d: "differing [Str ''Alice'', Str ''Bob''] [Str ''Alice'', Str ''Bobby''] = [1]"
    "differing [Str ''30'', Str ''41''] [Str ''30'', Str ''41''] = []"
    by code_simp+
  from mismatches_only [OF h1 h2'] obtain report where
    r: "compare_dataframes_smart ascii_lower
        [(Name ''Name'', [Str ''Alice'', Str ''Bob'']), (Name ''Age'', [Str ''30'', Str ''41''])]
        [(Name ''Name'', [Str ''Alice'', Str ''Bobby'']), (Name ''Age'', [Str ''30'', Str ''41''])] =
        Inr report"
      "findex report =
        concat (map (\<lambda>(a, b).
                  differing
                    (the_column [(Name ''Name'', [Str ''Alice'', Str ''Bob'']), (Name ''Age'', [Str ''30'', Str ''41''])] a)
                    (the_column [(Name ''Name'', [Str ''Alice'', Str ''Bobby'']), (Name ''Age'', [Str ''30'', Str ''41''])] b))
                  (col_pairs (ColSet [Name ''Name'', Name ''Age''])))"
    by blast
  from r(1) e have "report = \<lparr>fcolumns = [''Excel'', ''PDF'', ''Column''], findex = [1],
                fdata = [[Cell (Str ''Bob''), Cell (Str ''Bobby''), Label (Name ''Name'')]]\<rparr>"
    by simp
  with r h1 h2 d show ?thesis by blast
qed

section \<open>CSV export: properties\<close>

lemma compare_loop_inv:
  assumes step: "\<And>c c1 c2. \<not> empty (mismatch_frame c1 c2) \<Longrightarrow>
                   P (set_column ''Column'' (Label c) (mismatch_frame c1 c2))"
  shows "compare_loop df_excel df_pdf ps diffs = Inr r \<Longrightarrow> \<forall>f\<in>set diffs. P f \<Longrightarrow>
         \<forall>f\<in>set r. P f"
proof (induction ps arbitrary: diffs)
  case Nil
  then show ?case by simp
next
  case (Cons p ps)
  obtain col_excel col_pdf where p: "p = (col_excel, col_pdf)" by (cases p)
  from Cons.prems(1) obtain x1 where g1: "getitem df_excel col_excel = Inr x1"
    unfolding p by (cases "getitem df_excel col_excel") simp_all
  from Cons.prems(1) obtain x2 where g2: "getitem df_pdf col_pdf = Inr x2"
    unfolding p by (cases "getitem df_pdf col_pdf") (simp_all add: g1)
  from Cons.prems(1) obtain c1 where x1: "x1 = Column c1"
    unfolding p by (cases x1) (simp_all add: g1 g2)
  from Cons.prems(1) obtain c2 where x2: "x2 = Column c2"
    unfolding p by (cases x2) (simp_all add: g1 g2 x1)
  show ?case
  proof (cases "empty (mismatch_frame c1 c2)")
    case True
    with Cons.prems(1) have "compare_loop df_excel df_pdf ps diffs = Inr r"
      by (simp add: p g1 g2 x1 x2)
    then show ?thesis using Cons.prems(2) by (rule Cons.IH)
  next
    case False
    with Cons.prems(1) have
      "compare_loop df_excel df_pdf ps
         (diffs @ [set_column ''Column'' (Label col_excel) (mismatch_frame c1 c2)]) = Inr r"
      by (simp add: p g1 g2 x1 x2)
    moreover have "\<forall>f\<in>set (diffs @ [set_column ''Column'' (Label col_excel) (mismatch_frame c1 c2)]). P f"
      using Cons.prems(2) step [OF False] by simp
    ultimately show ?thesis by (rule Cons.IH)
  qed
qed

lemma tagged_frame_shape:
  assumes "\<not> empty (mismatch_frame c1 c2)"
  shows "fcolumns (set_column ''Column'' (Label c) (mismatch_frame c1 c2)) = [''Excel'', ''PDF'', ''Column''] \<and>
     findex (set_column ''Column'' (Label c) (mismatch_frame c1 c2)) \<noteq> [] \<and>
     length (fdata (set_column ''Column'' (Label c) (mismatch_frame c1 c2))) =
       length (findex (set_column ''Column'' (Label c) (mismatch_frame c1 c2))) \<and>
     (\<forall>row\<in>set (fdata (set_column ''Column'' (Label c) (mismatch_frame c1 c2))).
         \<exists>a b c. row = [Cell a, Cell b, Label c])"
proof -
  from assms have "differing c1 c2 \<noteq> []"
    by (simp add: empty_mismatch_frame_iff)
  then show ?thesis
    unfolding tagged_mismatch_frame [THEN conjunct1]
      tagged_mismatch_frame [THEN conjunct2, THEN conjunct1]
      tagged_mismatch_frame [THEN conjunct2, THEN conjunct2]
    by auto
qed

lemma compare_loop_frames:
  assumes "compare_loop df_excel df_pdf ps [] = Inr r"
  shows "\<forall>f\<in>set r. fcolumns f = [''Excel'', ''PDF'', ''Column''] \<and> findex f \<noteq> [] \<and>
       length (fdata f) = length (findex f) \<and>
       (\<forall>row\<in>set (fdata f). \<exists>a b c. row = [Cell a, Cell b, Label c])"
proof -
  let ?P = "\<lambda>f. fcolumns f = [''Excel'', ''PDF'', ''Column''] \<and> findex f \<noteq> [] \<and>
       length (fdata f) = length (findex f) \<and>
       (\<forall>row\<in>set (fdata f). \<exists>a b c. row = [Cell a, Cell b, Label c])"
  have "\<forall>f\<in>set r. ?P f"
  proof (rule compare_loop_inv [where P = ?P, OF _ assms])
    show "?P (set_column ''Column'' (Label c) (mismatch_frame c1 c2))"
      if "\<not> empty (mismatch_frame c1 c2)" for c c1 c2
      using tagged_frame_shape [OF that] .
    show "\<forall>f\<in>set []. ?P f" by simp
  qed
  then show ?thesis .
qed

lemma pd_concat_frames:
  assumes "fs \<noteq> []"
    and "\<forall>f\<in>set fs. fcolumns f = [''Excel'', ''PDF'', ''Column''] \<and> findex f \<noteq> [] \<and>
       length (fdata f) = length (findex f) \<and>
       (\<forall>row\<in>set (fdata f). \<exists>a b c. row = [Cell a, Cell b, Label c])"
  shows "fcolumns (pd_concat fs) = [''Excel'', ''PDF'', ''Column''] \<and> findex (pd_concat fs) \<noteq> [] \<and>
       length (fdata (pd_concat fs)) = length (findex (pd_concat fs)) \<and>
       (\<forall>row\<in>set (fdata (pd_concat fs)). \<exists>a b c. row = [Cell a, Cell b, Label c])"
proof -
  from assms(1) obtain f fs' where fs: "fs = f # fs'" by (cases fs) auto
  have len: "length (concat (map fdata gs)) = length (concat (map findex gs))"
    if "\<forall>g\<in>set gs. length (fdata g) = length (findex g)" for gs :: "frame list"
    using that by (induction gs) auto
  have "length (fdata (pd_concat fs)) = length (findex (pd_concat fs))"
    unfolding fs pd_concat.simps using assms(2) len [of "f # fs'"] by (simp add: fs)
  moreover have "fcolumns (pd_concat fs) = [''Excel'', ''PDF'', ''Column'']" "findex (pd_concat fs) \<noteq> []"
    using assms(2) by (simp_all add: fs)
  moreover have "\<forall>row\<in>set (fdata (pd_concat fs)). \<exists>a b c. row = [Cell a, Cell b, Label c]"
    using assms(2) by (auto simp: fs)
  ultimately show ?thesis by blast
qed

text \<open>Every report the comparison returns is the empty frame or has the three columns.\<close>

lemma report_shape:
  assumes "compare_dataframes_smart lw df_excel df_pdf = Inr report"
  shows "report = empty_frame \<or>
     fcolumns report = [''Excel'', ''PDF'', ''Column''] \<and> findex report \<noteq> [] \<and>
     length (fdata report) = length (findex report) \<and>
     (\<forall>row\<in>set (fdata report). \<exists>a b c. row = [Cell a, Cell b, Label c])"
proof -
  from assms obtain shared diffs where
    d: "compare_loop df_excel df_pdf (col_pairs shared) [] = Inr diffs"
      "report = (if diffs \<noteq> [] then pd_concat diffs else empty_frame)"
    by (auto simp: compare_dataframes_smart_def split: sum.splits)
  show ?thesis
  proof (cases "diffs = []")
    case True
    with d(2) show ?thesis by simp
  next
    case False
    have "\<forall>f\<in>set diffs. fcolumns f = [''Excel'', ''PDF'', ''Column''] \<and> findex f \<noteq> [] \<and>
       length (fdata f) = length (findex f) \<and>
       (\<forall>row\<in>set (fdata f). \<exists>a b c. row = [Cell a, Cell b, Label c])"
      by (rule compare_loop_frames [OF d(1)])
    from pd_concat_frames [OF False this] False d(2) show ?thesis by simp
  qed
qed

lemma to_csv_no_index:
  "length (fdata f) = length (findex f) \<Longrightarrow>
     to_csv False f = fcolumns f # map (map entry_str) (fdata f)"
proof -
  assume l: "length (fdata f) = length (findex f)"
  have "map (\<lambda>(i, r). map entry_str r) (zip ix rows) = map (map entry_str) rows"
    if "length rows = length ix" for ix :: "nat list" and rows :: "entry list list"
    using that by (induction rows ix rule: list_induct2) auto
  from this [OF l] show ?thesis by (simp add: to_csv_def)
qed

text \<open>Reading the UTF-8 bytes of a text gives the text back.\<close>

lemma decode_utf8_char:
  "decode_utf8 (utf8_char c @ bs) = map_option ((#) c) (decode_utf8 bs)"
proof (cases "(of_char c :: nat) < 128")
  case True
  then show ?thesis
    by (cases bs) (simp_all add: utf8_char_def Let_def)
next
  case False
  let ?n = "of_char c :: nat"
  have n: "?n < 256" by simp
  have q: "?n div 64 < 4"
    using n by arith
  have b: "192 \<le> 192 + ?n div 64" "192 + ?n div 64 < 224" "\<not> 192 + ?n div 64 < 128"
    using q by simp_all
  have c: "128 \<le> 128 + ?n mod 64" "128 + ?n mod 64 < 192"
    by simp_all
  have v: "(192 + ?n div 64 - 192) * 64 + (128 + ?n mod 64 - 128) = ?n"
    by simp
  have "decode_utf8 ((192 + ?n div 64) # (128 + ?n mod 64) # bs) =
          map_option ((#) (char_of ?n)) (decode_utf8 bs)"
    using b c n by (simp only: decode_utf8.simps v if_True if_False simp_thms)
  with False show ?thesis
    by (simp add: utf8_char_def Let_def del: decode_utf8.simps)
qed

lemma decode_encode_utf8: "decode_utf8 (encode_utf8 s) = Some s"
  by (induction s) (simp_all add: encode_utf8_def decode_utf8_char)

text \<open>
  Claim C9, amended. For a report that is not empty, the export has the header
  \<open>Excel, PDF, Column\<close>, in that order, followed by one line for each record, in the
  order of the report, holding the record's spreadsheet value, its PDF value and its
  column label. The row index is not written (\<^verbatim>\<open>index=False\<close>): two reports with the
  same records export to the same bytes whatever their row indices are. The export is
  the UTF-8 encoding of that text: read as UTF-8, every field gives its text back.
\<close>

theorem csv_export_columns:
  assumes "compare_dataframes_smart str_lower df_excel df_pdf = Inr report"
    and "\<not> empty report"
  shows "to_csv False report = [''Excel'', ''PDF'', ''Column''] # map (map entry_str) (fdata report) \<and>
         length (fdata report) = length (findex report) \<and>
         (\<forall>row\<in>set (fdata report). \<exists>a b c. row = [Cell a, Cell b, Label c]) \<and>
         csv report = Some (map (map encode_utf8) (to_csv False report)) \<and>
         (\<exists>bytes. csv report = Some bytes \<and>
                  map (map decode_utf8) bytes = map (map Some) (to_csv False report)) \<and>
         (\<forall>str_lower' df_excel' df_pdf' report'.
             compare_dataframes_smart str_lower' df_excel' df_pdf' = Inr report' \<and>
             fdata report' = fdata report \<longrightarrow> csv report' = csv report)"
proof -
  from assms(2) have "report \<noteq> empty_frame"
    by (auto simp: empty_def empty_frame_def)
  with report_shape [OF assms(1)] have
    s: "fcolumns report = [''Excel'', ''PDF'', ''Column'']"
       "length (fdata report) = length (findex report)"
       "\<forall>row\<in>set (fdata report). \<exists>a b c. row = [Cell a, Cell b, Label c]"
       "findex report \<noteq> []"
    by blast+
  have t: "to_csv False report = [''Excel'', ''PDF'', ''Column''] # map (map entry_str) (fdata report)"
    using s(1) by (simp add: to_csv_no_index [OF s(2)])
  have c: "csv report = Some (map (map encode_utf8) (to_csv False report))"
    using assms(2) by (simp add: csv_def)
  have "map (map decode_utf8) (map (map encode_utf8) (to_csv False report)) =
          map (map Some) (to_csv False report)"
    by (simp add: comp_def decode_encode_utf8)
  with c have d: "\<exists>bytes. csv report = Some bytes \<and>
                  map (map decode_utf8) bytes = map (map Some) (to_csv False report)"
    by blast
  have "csv report' = csv report"
    if r': "compare_dataframes_smart str_lower' df_excel' df_pdf' = Inr report'"
      and f: "fdata report' = fdata report"
    for str_lower' df_excel' df_pdf' report'
  proof -
    from s(2,4) have "fdata report \<noteq> []" by auto
    with f have "report' \<noteq> empty_frame" by (auto simp: empty_frame_def)
    with report_shape [OF r'] have
      s': "fcolumns report' = [''Excel'', ''PDF'', ''Column'']"
          "length (fdata report') = length (findex report')"
          "findex report' \<noteq> []"
      by blast+
    then have "\<not> empty report'" by (simp add: empty_def)
    moreover have "to_csv False report' = to_csv False report"
      using s'(1) f t by (simp add: to_csv_no_index [OF s'(2)])
    ultimately show ?thesis using c by (simp add: csv_def)
  qed
  with t s(2,3) c d show ?thesis by blast
qed

theorem csv_export_columns_witness:
  "compare_dataframes_smart ascii_lower [(Name ''X'', [Str ''1'', Str ''2'', Str ''3''])]
                            [(Name ''X'', [Str ''1'', Str ''2''])] =
     Inr \<lparr>fcolumns = [''Excel'', ''PDF'', ''Column''], findex = [2],
          fdata = [[Cell (Str ''3''), Cell (Str ''''), Label (Name ''X'')]]\<rparr> \<and>
   \<not> empty \<lparr>fcolumns = [''Excel'', ''PDF'', ''Column''], findex = [2],
             fdata = [[Cell (Str ''3''), Cell (Str ''''), Label (Name ''X'')]]\<rparr> \<and>
   to_csv False \<lparr>fcolumns = [''Excel'', ''PDF'', ''Column''], findex = [2],
        fdata = [[Cell (Str ''3''), Cell (Str ''''), Label (Name ''X'')]]\<rparr> =
     [[''Excel'', ''PDF'', ''Column''], [''3'', '''', ''X'']] \<and>
   csv \<lparr>fcolumns = [''Excel'', ''PDF'', ''Column''], findex = [2],
        fdata = [[Cell (Str ''3''), Cell (Str ''''), Label (Name ''X'')]]\<rparr> =
     Some [[[69, 120, 99, 101, 108], [80, 68, 70], [67, 111, 108, 117, 109, 110]],
           [[51], [], [88]]]"
proof -
  have h1: "compare_dataframes_smart ascii_lower [(Name ''X'', [Str ''1'', Str ''2'', Str ''3''])]
                            [(Name ''X'', [Str ''1'', Str ''2''])] =
     Inr \<lparr>fcolumns = [''Excel'', ''PDF'', ''Column''], findex = [2],
          fdata = [[Cell (Str ''3''), Cell (Str ''''), Label (Name ''X'')]]\<rparr>"
    by code_simp
  have h2: "\<not> empty \<lparr>fcolumns = [''Excel'', ''PDF'', ''Column''], findex = [2],
             fdata = [[Cell (Str ''3''), Cell (Str ''''), Label (Name ''X'')]]\<rparr>"
    by (simp add: empty_def)
  have e: "map (map encode_utf8) [[''Excel'', ''PDF'', ''Column''], [''3'', '''', ''X'']] =
             [[[69, 120, 99, 101, 108], [80, 68, 70], [67, 111, 108, 117, 109, 110]],
              [[51], [], [88]]]"
    by code_simp
  from csv_export_columns [OF h1 h2]
  have t: "to_csv False \<lparr>fcolumns = [''Excel'', ''PDF'', ''Column''], findex = [2],
        fdata = [[Cell (Str ''3''), Cell (Str ''''), Label (Name ''X'')]]\<rparr> =
     [''Excel'', ''PDF'', ''Column''] #
       map (map entry_str) [[Cell (Str ''3''), Cell (Str ''''), Label (Name ''X'')]]"
    and c: "csv \<lparr>fcolumns = [''Excel'', ''PDF'', ''Column''], findex = [2],
        fdata = [[Cell (Str ''3''), Cell (Str ''''), Label (Name ''X'')]]\<rparr> =
     Some (map (map encode_utf8)
            (to_csv False \<lparr>fcolumns = [''Excel'', ''PDF'', ''Column''], findex = [2],
               fdata = [[Cell (Str ''3''), Cell (Str ''''), Label (Name ''X'')]]\<rparr>))"
    by simp_all
  from t have t': "to_csv False \<lparr>fcolumns = [''Excel'', ''PDF'', ''Column''], findex = [2],
        fdata = [[Cell (Str ''3''), Cell (Str ''''), Label (Name ''X'')]]\<rparr> =
     [[''Excel'', ''PDF'', ''Column''], [''3'', '''', ''X'']]"
    by simp
  from c have "csv \<lparr>fcolumns = [''Excel'', ''PDF'', ''Column''], findex = [2],
        fdata = [[Cell (Str ''3''), Cell (Str ''''), Label (Name ''X'')]]\<rparr> =
     Some [[[69, 120, 99, 101, 108], [80, 68, 70], [67, 111, 108, 117, 109, 110]],
           [[51], [], [88]]]"
    unfolding t' e .
  with h1 h2 t' show ?thesis by blast
qed

text \<open>
  Claim C9, as stated, fails on the row index. A mismatch at row 2 and a mismatch at
  row 0 with the same values are exported to the same bytes: the export carries the
  position of a record in the report, not its row index. (With \<^verbatim>\<open>index=True\<close>, which
  the program does not use, the line would start with the index 2.)
\<close>

theorem csv_export_drops_index_counterexample:
  "compare_dataframes_smart ascii_lower [(Name ''X'', [Str ''1'', Str ''2'', Str ''3''])]
                            [(Name ''X'', [Str ''1'', Str ''2''])] =
     Inr \<lparr>fcolumns = [''Excel'', ''PDF'', ''Column''], findex = [2],
          fdata = [[Cell (Str ''3''), Cell (Str ''''), Label (Name ''X'')]]\<rparr> \<and>
   compare_dataframes_smart ascii_lower [(Name ''X'', [Str ''3''])] [(Name ''X'', [Str ''''])] =
     Inr \<lparr>fcolumns = [''Excel'', ''PDF'', ''Column''], findex = [0],
          fdata = [[Cell (Str ''3''), Cell (Str ''''), Label (Name ''X'')]]\<rparr> \<and>
   findex \<lparr>fcolumns = [''Excel'', ''PDF'', ''Column''], findex = [2],
           fdata = [[Cell (Str ''3''), Cell (Str ''''), Label (Name ''X'')]]\<rparr> \<noteq>
   findex \<lparr>fcolumns = [''Excel'', ''PDF'', ''Column''], findex = [0],
           fdata = [[Cell (Str ''3''), Cell (Str ''''), Label (Name ''X'')]]\<rparr> \<and>
   csv \<lparr>fcolumns = [''Excel'', ''PDF'', ''Column''], findex = [2],
        fdata = [[Cell (Str ''3''), Cell (Str ''''), Label (Name ''X'')]]\<rparr> =
   csv \<lparr>fcolumns = [''Excel'', ''PDF'', ''Column''], findex = [0],
        fdata = [[Cell (Str ''3''), Cell (Str ''''), Label (Name ''X'')]]\<rparr> \<and>
   to_csv False \<lparr>fcolumns = [''Excel'', ''PDF'', ''Column''], findex = [2],
        fdata = [[Cell (Str ''3''), Cell (Str ''''), Label (Name ''X'')]]\<rparr> =
     [[''Excel'', ''PDF'', ''Column''], [''3'', '''', ''X'']] \<and>
   to_csv True \<lparr>fcolumns = [''Excel'', ''PDF'', ''Column''], findex = [2],
        fdata = [[Cell (Str ''3''), Cell (Str ''''), Label (Name ''X'')]]\<rparr> =
     [['''', ''Excel'', ''PDF'', ''Column''], [''2'', ''3'', '''', ''X'']]"
  by code_simp

section \<open>Normalisation of absent cells\<close>

text \<open>
  Claim C1 does not hold of the code. \<^verbatim>\<open>astype(str)\<close> runs before \<^verbatim>\<open>fillna("")\<close>:
  it turns a NaN into the string "nan" and a \<^verbatim>\<open>None\<close> into the string "None", and
  \<^verbatim>\<open>fillna\<close> then finds nothing left to fill. An empty spreadsheet cell compared with an
  empty string is reported as the mismatch of "nan" with the empty string, and
  the flattened text of the spreadsheet holds the line "nan".
\<close>

theorem absent_cells_keep_their_token:
  "fillna (Str '''') (astype_str [Str ''a'', NaN, PyNone]) = [Str ''a'', Str ''nan'', Str ''None''] \<and>
   compare_dataframes_smart str_lower [(Name ''A'', [NaN])] [(Name ''A'', [Str ''''])] =
     Inr \<lparr>fcolumns = [''Excel'', ''PDF'', ''Column''], findex = [0],
          fdata = [[Cell (Str ''nan''), Cell (Str ''''), Label (Name ''A'')]]\<rparr> \<and>
   compare_dataframes_smart str_lower [(Name ''A'', [Str ''''])] [(Name ''A'', [PyNone])] =
     Inr \<lparr>fcolumns = [''Excel'', ''PDF'', ''Column''], findex = [0],
          fdata = [[Cell (Str ''''), Cell (Str ''None''), Label (Name ''A'')]]\<rparr> \<and>
   excel_text [(Name ''A'', [Str ''x'', NaN])] = Inr (''x'' @ [CHR 0x0A] @ ''nan'')"
  by code_simp

section \<open>Frames without a common column\<close>

text \<open>
  Claim C6 does not hold of the code for a frame with a position label. A PDF table of
  one row has the labels 0, 1, ... (line 18); it shares no label with a spreadsheet whose
  labels are strings, so the lower-casing pass runs and \<^verbatim>\<open>c.lower()\<close> raises
  \<^verbatim>\<open>AttributeError\<close> on the integer. The comparison raises instead of returning the
  empty report.
\<close>

theorem no_match_with_position_label_raises:
  "compare_dataframes_smart str_lower [(Name ''a'', [Str ''1''])] [(Pos 0, [Str ''1''])] = Inl AttributeError \<and>
   match_columns str_lower [(Name ''a'', [Str ''1''])] [(Pos 0, [Str ''1''])] = Inl AttributeError"
  by code_simp

text \<open>
  Where all labels are strings the comparison of two frames without a common column,
  exact or case-insensitive, does return the empty report.
\<close>

lemma compare_no_match_names:
  assumes "set (columns df1) \<inter> set (columns df2) = {}"
    and "list_all is_name (columns df1)"
    and "list_all is_name (columns df2)"
    and "lower lw ` set (columns df1) \<inter> lower lw ` set (columns df2) = {}"
  shows "compare_dataframes_smart lw df1 df2 = Inr empty_frame"
proof -
  from match_columns_fallback [OF assms(1-3), of lw] obtain ks where
    ks: "set ks = {k. last_with lw (columns df1) k \<noteq> None \<and> last_with lw (columns df2) k \<noteq> None}"
      "match_columns lw df1 df2 =
         Inr (ColDict (map (\<lambda>k. (the (last_with lw (columns df1) k),
                                 the (last_with lw (columns df2) k))) ks))"
    by blast
  have "k \<notin> set ks" for k
  proof
    assume "k \<in> set ks"
    with ks(1) obtain a b where
      "last_with lw (columns df1) k = Some a" "last_with lw (columns df2) k = Some b"
      by auto
    then have "a \<in> set (columns df1)" "lower lw a = Inr k" "b \<in> set (columns df2)" "lower lw b = Inr k"
      using last_with_SomeD by blast+
    then have "Inr k \<in> lower lw ` set (columns df1) \<inter> lower lw ` set (columns df2)"
      by (metis IntI imageI)
    with assms(4) show False by simp
  qed
  then have "ks = []" by (cases ks) auto
  with ks(2) show ?thesis by (simp add: compare_dataframes_smart_def)
qed

end
